theory Spec2Isabelle
  imports Main "HOL-Library.Word"
begin

unbundle bit_operations_syntax

section \<open>The JNI video decoder of Rubus (frontend_decoders_FfmpegJniVideoDecoder.c)\<close>

text \<open>
  The file bridges three parties: the codec engine (libavformat, libavcodec, libswscale), the
  host runtime (JNI) and the caller that keeps a \<open>struct context0\<close> behind a 64-bit handle.
  The engine is not part of the repository, so it is a parameter of the model: a record of the
  functions the C code calls, over abstract states for the format context \<open>'d\<close>, the packet
  \<open>'p\<close>, the frame \<open>'f\<close>, the codec context \<open>'c\<close> and the scaler context \<open>'s\<close>. Everything
  the C code itself does (the order of the calls, the branches on the return codes, the error
  messages, the pixel loop, what is written to the context) is in the definitions below.

  What is taken for granted of the two outer parties:
  \<^item> an engine function changes only the objects the C signature lets it change: the decoder
    is read and written by \<open>avcodec_send_packet\<close> and \<open>avcodec_receive_frame\<close>, a packet
    is written by \<open>av_read_frame\<close> and only read by \<open>avcodec_send_packet\<close> (it is
    \<open>const\<close> there), and \<open>sws_scale\<close> reads the scaler's conversion parameters and writes
    the destination array;
  \<^item> \<open>avformat_open_input\<close>, when it fails, frees the format context it was given and
    sets the caller's pointer to \<open>NULL\<close>, as libavformat documents;
  \<^item> the allocating functions of the engine (\<open>avformat_alloc_context\<close>,
    \<open>avcodec_alloc_context3\<close>, \<open>av_packet_alloc\<close>, \<open>av_frame_alloc\<close>) return an object;
  \<^item> the JNI calls succeed (\<open>FindClass\<close> finds \<open>common/DecodingException\<close>), and
    \<open>ThrowNew\<close> leaves the exception pending while the C function goes on to return.
  Where the C code has undefined behaviour (a \<open>NULL\<close> or dangling pointer handed on, an array
  index out of bounds), the model's functions return \<open>None\<close>.
\<close>

subsection \<open>Machine types\<close>

type_synonym byte = "8 word"
type_synonym cint = "32 word"    \<comment> \<open>C \<open>int\<close> and \<open>jint\<close>, read signed through \<open>sint\<close>\<close>
type_synonym jlong = "64 word"

definition INT_MAX :: int where
  "INT_MAX = 2147483647"

subsection \<open>Formatting: \<open>snprintf\<close> with one \<open>%d\<close>\<close>

fun show_nat :: "nat \<Rightarrow> string" where
  "show_nat n =
     (if n < 10 then [''0123456789'' ! n]
      else show_nat (n div 10) @ [''0123456789'' ! (n mod 10)])"

declare show_nat.simps [simp del]

definition show_int :: "int \<Rightarrow> string" where
  "show_int i = (if i < 0 then CHR ''-'' # show_nat (nat (- i)) else show_nat (nat i))"

text \<open>\<open>snprintf(buf, size, ...)\<close> keeps at most \<open>size - 1\<close> characters of the formatted text.\<close>

definition snprintf :: "nat \<Rightarrow> string \<Rightarrow> string" where
  "snprintf size_of s = take (size_of - 1) s"

subsection \<open>The codec engine as the code sees it\<close>

record AVCodecParameters =
  codec_id :: cint
  width :: cint
  height :: cint
  format :: cint

record AVStream =
  nb_frames :: "64 word"    \<comment> \<open>\<open>int64_t\<close>\<close>
  codecpar :: AVCodecParameters

record ('d, 'p, 'f, 'c, 's) engine =
  avformat_open_input :: "byte list \<Rightarrow> cint \<times> 'd"
  avformat_find_stream_info :: "'d \<Rightarrow> cint \<times> 'd"
  streams0 :: "'d \<Rightarrow> AVStream"
  av_read_frame :: "'d \<Rightarrow> 'p \<Rightarrow> cint \<times> 'd \<times> 'p"
  avcodec_send_packet :: "'c \<Rightarrow> 'p \<Rightarrow> cint \<times> 'c"
  avcodec_receive_frame :: "'c \<Rightarrow> 'f \<Rightarrow> cint \<times> 'c \<times> 'f"
  av_packet_unref :: "'p \<Rightarrow> 'p"
  av_frame_unref :: "'f \<Rightarrow> 'f"
  sws_scale :: "'s \<Rightarrow> 'f \<Rightarrow> cint \<Rightarrow> cint \<Rightarrow> byte list"
  avcodec_find_decoder :: "cint \<Rightarrow> bool"
  avcodec_alloc_context3 :: "cint \<Rightarrow> 'c"
  avcodec_parameters_to_context :: "'c \<Rightarrow> AVCodecParameters \<Rightarrow> cint \<times> 'c"
  avcodec_open2 :: "'c \<Rightarrow> cint \<Rightarrow> cint \<times> 'c"
  sws_getContext :: "cint \<Rightarrow> cint \<Rightarrow> cint \<Rightarrow> 's option"
  av_packet_alloc :: "'p"
  av_frame_alloc :: "'f"

text \<open>
  Every call into the engine or the allocator is logged, in program order, with the code it
  returned: a resource is released when the trace holds its release call.
\<close>

datatype call =
    Calloc
  | Free
  | Avio_alloc_context
  | Avformat_alloc_context
  | Avformat_open_input cint
  | Avformat_find_stream_info cint
  | Avio_context_free
  | Avformat_close_input
  | Av_read_frame cint
  | Avcodec_send_packet cint
  | Avcodec_receive_frame cint
  | Av_packet_unref
  | Av_frame_unref
  | Sws_scale
  | Avcodec_find_decoder bool
  | Avcodec_alloc_context3
  | Avcodec_parameters_to_context cint
  | Avcodec_open2 cint
  | Sws_getContext bool
  | Av_packet_alloc
  | Av_frame_alloc
  | Avcodec_free_context
  | Av_frame_free
  | Av_packet_free
  | Sws_freeContext

subsection \<open>\<open>struct context0\<close>, the memory and the JNI environment\<close>

text \<open>
  A field of \<open>struct context0\<close> is a pointer: \<open>None\<close> is \<open>NULL\<close>, \<open>Some x\<close> a pointer to
  an object whose present contents are \<open>x\<close>. \<open>buffer\<close> points to the bytes of the scratch
  array, whose length is its allocated size.
\<close>

record ('p, 'f, 'c, 's) context0 =
  frame :: "'f option"
  packet :: "'p option"
  buffer :: "byte list option"
  codec_context :: "'c option"
  sws_context :: "'s option"
  frame_rate :: "64 word"    \<comment> \<open>\<open>uint64_t\<close>\<close>

record ('p, 'f, 'c, 's) world =
  mem :: "jlong \<Rightarrow> ('p, 'f, 'c, 's) context0 option"    \<comment> \<open>the live \<open>struct context0\<close> objects\<close>
  pending :: "(string \<times> string) option"    \<comment> \<open>the pending Java exception: class, message\<close>
  calls :: "call list"

definition exception_class :: string where
  "exception_class = ''common/DecodingException''"

definition ThrowNew :: "string \<Rightarrow> string \<Rightarrow> ('p, 'f, 'c, 's) world \<Rightarrow> ('p, 'f, 'c, 's) world" where
  "ThrowNew cls msg w = w\<lparr>pending := Some (cls, msg)\<rparr>"

record image =
  img_width :: cint
  img_height :: cint
  img_pixels :: "32 word list"

subsection \<open>\<open>retrieve_video_format_context\<close> and \<open>retrieve_codec_context\<close>\<close>

definition retrieve_video_format_context ::
  "('d, 'p, 'f, 'c, 's) engine \<Rightarrow> byte list \<Rightarrow> call list \<Rightarrow> cint \<times> 'd \<times> call list" where
  "retrieve_video_format_context eng media tr =
     (let tr1 = tr @ [Avio_alloc_context, Avformat_alloc_context];
          (error_code, fc) = avformat_open_input eng media
      in if error_code \<noteq> 0 then (error_code, fc, tr1 @ [Avformat_open_input error_code])
         else
           let (rc, fc') = avformat_find_stream_info eng fc
           in (rc, fc', tr1 @ [Avformat_open_input error_code, Avformat_find_stream_info rc]))"

definition retrieve_codec_context ::
  "('d, 'p, 'f, 'c, 's) engine \<Rightarrow> AVCodecParameters \<Rightarrow> call list \<Rightarrow> cint \<times> 'c option \<times> call list" where
  "retrieve_codec_context eng params tr =
     (if \<not> avcodec_find_decoder eng (codec_id params)
      then (- 1, None, tr @ [Avcodec_find_decoder False])
      else
        let (error_code, c1) =
              avcodec_parameters_to_context eng (avcodec_alloc_context3 eng (codec_id params)) params;
            tr1 = tr @ [Avcodec_find_decoder True, Avcodec_alloc_context3,
                        Avcodec_parameters_to_context error_code]
        in if error_code \<noteq> 0 then (error_code, Some c1, tr1)
           else
             let (rc, c2) = avcodec_open2 eng c1 (codec_id params)
             in (rc, Some c2, tr1 @ [Avcodec_open2 rc]))"

subsection \<open>\<open>convert_to_java_frame\<close>: the pixel loop\<close>

text \<open>
  \<open>(uint32_t)buf[i] << 16 & 0xff0000 | (uint32_t)buf[i + 1] << 8 & 0xff00 | (uint32_t)buf[i + 2] & 0xff\<close>:
  in C the shift binds tighter than \<open>&\<close>, and \<open>&\<close> tighter than \<open>|\<close>.
\<close>

definition pack_pixel :: "byte \<Rightarrow> byte \<Rightarrow> byte \<Rightarrow> 32 word" where
  "pack_pixel r g b =
     ((push_bit 16 (ucast r) AND 0xff0000) OR (push_bit 8 (ucast g) AND 0xff00)) OR (ucast b AND 0xff)"

text \<open>
  The loop \<open>for (int i = 0, j = 0; i < width * height * 3; i += 3, j++)\<close> with its bound
  already computed. A read past the end of \<open>buf\<close>, a write past the end of \<open>pixels\<close> and
  an overflow of \<open>i += 3\<close> are undefined in C: the model stops with \<open>None\<close> there.
\<close>

function pack_loop :: "byte list \<Rightarrow> int \<Rightarrow> nat \<Rightarrow> nat \<Rightarrow> 32 word list \<Rightarrow> 32 word list option" where
  "pack_loop buf bound i j pixels =
     (if int i < bound then
        (if i + 2 < length buf \<and> j < length pixels \<and> int i + 3 \<le> INT_MAX then
           pack_loop buf bound (i + 3) (j + 1)
             (pixels[j := pack_pixel (buf ! i) (buf ! (i + 1)) (buf ! (i + 2))])
         else None)
      else Some pixels)"
  by pat_completeness auto
termination
  by (relation "measure (\<lambda>(buf, bound, i, j, pixels). nat (bound - int i))") auto

declare pack_loop.simps [simp del]

text \<open>
  \<open>NewIntArray(env, width * height)\<close> gives a zeroed array; with a negative length it gives
  \<open>NULL\<close>, and the code goes on to use it (\<open>None\<close>). The products are 32-bit \<open>int\<close>
  products: they wrap around.
\<close>

definition pack_pixels :: "cint \<Rightarrow> cint \<Rightarrow> byte list \<Rightarrow> 32 word list option" where
  "pack_pixels w h buf =
     (if sint (w * h) < 0 then None
      else pack_loop buf (sint (w * h * 3)) 0 0 (replicate (nat (sint (w * h))) 0))"

definition create_java_frame :: "32 word list \<Rightarrow> cint \<Rightarrow> cint \<Rightarrow> image" where
  "create_java_frame arr w h = \<lparr>img_width = w, img_height = h, img_pixels = arr\<rparr>"

text \<open>
  \<open>sws_scale\<close> writes the bytes the engine produces from \<open>buf[0]\<close> on; writing more than the
  array holds is undefined. Result: the image and the new contents of the scratch array.
\<close>

definition convert_to_java_frame ::
  "('d, 'p, 'f, 'c, 's) engine \<Rightarrow> 'f \<Rightarrow> 's option \<Rightarrow> byte list option \<Rightarrow> cint \<Rightarrow> cint
     \<Rightarrow> (image \<times> byte list) option" where
  "convert_to_java_frame eng fr context buf w h =
     (case context of None \<Rightarrow> None
      | Some sws \<Rightarrow>
        (case buf of None \<Rightarrow> None
         | Some b \<Rightarrow>
           let out = sws_scale eng sws fr h (w * 3)
           in if length out \<le> length b then
                let b' = out @ drop (length out) b
                in (case pack_pixels w h b' of None \<Rightarrow> None
                    | Some arr \<Rightarrow> Some (create_java_frame arr w h, b'))
              else None))"

subsection \<open>\<open>decodeFrames\<close>\<close>

text \<open>
  One iteration of \<open>while (total > 0)\<close>: \<open>Inl\<close> the message of the exception the iteration
  throws before it returns \<open>NULL\<close>, \<open>Inr\<close> the image it appends. A \<open>NULL\<close> field handed to
  the engine is undefined (\<open>None\<close>).
\<close>

definition decode_step ::
  "('d, 'p, 'f, 'c, 's) engine \<Rightarrow> cint \<Rightarrow> cint \<Rightarrow> 'd \<Rightarrow> ('p, 'f, 'c, 's) context0 \<Rightarrow> call list
     \<Rightarrow> ((string + image) \<times> 'd \<times> ('p, 'f, 'c, 's) context0 \<times> call list) option" where
  "decode_step eng video_width video_height fc context tr =
     (case packet context of None \<Rightarrow> None
      | Some pk \<Rightarrow>
        let (error_code, fc1, pk1) = av_read_frame eng fc pk;
            context1 = context\<lparr>packet := Some pk1\<rparr>;
            tr1 = tr @ [Av_read_frame error_code]
        in if error_code \<noteq> 0 then
             Some (Inl (snprintf 256 (''AVPacket initialization failed, error code: '' @ show_int (sint error_code))),
                   fc1, context1, tr1 @ [Avio_context_free, Avformat_close_input])
           else
             (case codec_context context1 of None \<Rightarrow> None
              | Some cc \<Rightarrow>
                let (error_code, cc2) = avcodec_send_packet eng cc pk1;
                    context2 = context1\<lparr>codec_context := Some cc2\<rparr>;
                    tr2 = tr1 @ [Avcodec_send_packet error_code]
                in if error_code \<noteq> 0 then
                     Some (Inl (snprintf 256 (''Decoding failed, error code '' @ show_int (sint error_code))),
                           fc1, context2, tr2 @ [Avio_context_free, Avformat_close_input])
                   else
                     (case frame context2 of None \<Rightarrow> None
                      | Some fr \<Rightarrow>
                        let (error_code, cc3, fr3) = avcodec_receive_frame eng cc2 fr;
                            context3 = context2\<lparr>codec_context := Some cc3, frame := Some fr3\<rparr>;
                            tr3 = tr2 @ [Avcodec_receive_frame error_code]
                        in if error_code \<noteq> 0 then
                             Some (Inl (snprintf 216 (''Decoding failed, error code '' @ show_int (sint error_code))),
                                   fc1, context3\<lparr>packet := Some (av_packet_unref eng pk1)\<rparr>,
                                   tr3 @ [Av_packet_unref, Avio_context_free, Avformat_close_input])
                           else
                             (case convert_to_java_frame eng fr3 (sws_context context3) (buffer context3)
                                     video_width video_height of
                                None \<Rightarrow> None
                              | Some (java_frame, b') \<Rightarrow>
                                Some (Inr java_frame, fc1,
                                      context3\<lparr>buffer := Some b',
                                               frame := Some (av_frame_unref eng fr3),
                                               packet := Some (av_packet_unref eng pk1)\<rparr>,
                                      tr3 @ [Sws_scale, Av_frame_unref, Av_packet_unref])))))"

text \<open>
  The loop, on the number of iterations left (\<open>total\<close> when it is positive, none otherwise;
  \<open>total_frames\<close> below is the parameter \<open>total\<close>),
  and the release of the format context after it.
\<close>

fun decode_loop ::
  "('d, 'p, 'f, 'c, 's) engine \<Rightarrow> cint \<Rightarrow> cint \<Rightarrow> nat \<Rightarrow> 'd \<Rightarrow> ('p, 'f, 'c, 's) context0 \<Rightarrow> image list
     \<Rightarrow> call list \<Rightarrow> ((string + image list) \<times> ('p, 'f, 'c, 's) context0 \<times> call list) option" where
  "decode_loop eng video_width video_height 0 fc context java_frames tr =
     Some (Inr java_frames, context, tr @ [Avio_context_free, Avformat_close_input])"
| "decode_loop eng video_width video_height (Suc n) fc context java_frames tr =
     (case decode_step eng video_width video_height fc context tr of
        None \<Rightarrow> None
      | Some (Inl msg, fc', context', tr') \<Rightarrow> Some (Inl msg, context', tr')
      | Some (Inr java_frame, fc', context', tr') \<Rightarrow>
          decode_loop eng video_width video_height n fc' context' (java_frames @ [java_frame]) tr')"

text \<open>
  The result is the returned array (\<open>None\<close> is \<open>NULL\<close>) and the world after the call; the
  outer \<open>None\<close> is undefined behaviour:
  \<^item> a failed \<open>avformat_open_input\<close> has freed the format context and set the pointer to
    \<open>NULL\<close>, and the failure branch reads \<open>format_context->pb\<close> through it (after a failed
    \<open>avformat_find_stream_info\<close> the format context is still there, and the branch releases
    it);
  \<^item> \<open>jobject java_frames[total]\<close> with a negative \<open>total\<close> is an array of negative size
    (with \<open>total = 0\<close> it holds nothing, and the loop does not run);
  \<^item> a handle that is not the address of a live context is read through.
  The parameter \<open>offset\<close> is received and never read.
\<close>

definition decodeFrames ::
  "('d, 'p, 'f, 'c, 's) engine \<Rightarrow> ('p, 'f, 'c, 's) world \<Rightarrow> jlong \<Rightarrow> cint \<Rightarrow> byte list \<Rightarrow> cint \<Rightarrow> cint
     \<Rightarrow> (image list option \<times> ('p, 'f, 'c, 's) world) option" where
  "decodeFrames eng w context_address context_type encoded_video offset total_frames =
     (if context_type = 0 then
        let (error_code, format_context, tr) =
              retrieve_video_format_context eng encoded_video (calls w)
        in if error_code \<noteq> 0 then
             (if fst (avformat_open_input eng encoded_video) \<noteq> 0 then None
              else
                Some (None,
                      ThrowNew exception_class
                        (snprintf 256 (''Demuxing failed, error code: '' @ show_int (sint error_code)))
                        (w\<lparr>calls := tr @ [Avio_context_free, Avformat_close_input]\<rparr>)))
           else
             let vid_stream = streams0 eng format_context;
                 video_width = width (codecpar vid_stream);
                 video_height = height (codecpar vid_stream)
             in if sint total_frames < 0 then None
                else
                  (case mem w context_address of None \<Rightarrow> None
                   | Some context \<Rightarrow>
                     (case decode_loop eng video_width video_height (nat (sint total_frames))
                             format_context context [] tr of
                        None \<Rightarrow> None
                      | Some (Inl msg, context', tr') \<Rightarrow>
                          Some (None,
                                ThrowNew exception_class msg
                                  (w\<lparr>mem := (mem w)(context_address \<mapsto> context'), calls := tr'\<rparr>))
                      | Some (Inr java_frames, context', tr') \<Rightarrow>
                          Some (Some java_frames,
                                w\<lparr>mem := (mem w)(context_address \<mapsto> context'), calls := tr'\<rparr>)))
      else
        Some (None,
              ThrowNew exception_class
                (snprintf 216 (''Context '' @ show_int (sint context_type) @ '' is not supported'')) w))"

subsection \<open>\<open>frames\<close>\<close>

text \<open>
  \<open>return frame_rate;\<close> converts the \<open>uint64_t\<close> to the \<open>jint\<close> the function returns: the
  low 32 bits.
\<close>

definition frames ::
  "('p, 'f, 'c, 's) world \<Rightarrow> jlong \<Rightarrow> cint \<Rightarrow> (cint \<times> ('p, 'f, 'c, 's) world) option" where
  "frames w context_address context_type =
     (if context_type = 0 then
        (case mem w context_address of None \<Rightarrow> None
         | Some context \<Rightarrow>
           if 0 < frame_rate context then Some (ucast (frame_rate context), w)
           else Some (0, ThrowNew exception_class ''Unknown frame rate'' w))
      else
        Some (0,
              ThrowNew exception_class
                (snprintf 256 (''Context '' @ show_int (sint context_type) @ '' is not supported'')) w))"

subsection \<open>\<open>initContext\<close>\<close>

text \<open>
  \<open>addr\<close> is the address \<open>calloc(1, sizeof(struct context0))\<close> returns, \<open>0\<close> when it fails;
  the code never checks it, and writing through \<open>NULL\<close> is undefined. The scratch array is
  \<open>calloc(video_width * video_height * 3, 1)\<close>: the product is a 32-bit \<open>int\<close>, and a negative
  one converts to a size no allocation can serve (\<open>NULL\<close>).
\<close>

definition zeroed_context0 :: "('p, 'f, 'c, 's) context0" where
  "zeroed_context0 =
     \<lparr>frame = None, packet = None, buffer = None, codec_context = None, sws_context = None,
      frame_rate = 0\<rparr>"

definition calloc_bytes :: "int \<Rightarrow> byte list option" where
  "calloc_bytes n = (if n < 0 then None else Some (replicate (nat n) 0))"

definition initContext ::
  "('d, 'p, 'f, 'c, 's) engine \<Rightarrow> ('p, 'f, 'c, 's) world \<Rightarrow> jlong \<Rightarrow> byte list \<Rightarrow> cint
     \<Rightarrow> (jlong \<times> ('p, 'f, 'c, 's) world) option" where
  "initContext eng w addr encoded_video context_type =
     (if context_type = 0 then
        let m0 = (if addr = 0 then mem w else (mem w)(addr \<mapsto> zeroed_context0));
            (error_code, format_context, tr) =
              retrieve_video_format_context eng encoded_video (calls w @ [Calloc])
        in if error_code \<noteq> 0 then
             Some (0,
                   ThrowNew exception_class
                     (snprintf 256 (''Demuxing failed, error code: '' @ show_int (sint error_code)))
                     (w\<lparr>mem := m0, calls := tr\<rparr>))
           else if addr = 0 then None
           else
             let vid_stream = streams0 eng format_context;
                 context1 = zeroed_context0\<lparr>frame_rate := nb_frames vid_stream\<rparr>;
                 video_width = width (codecpar vid_stream);
                 video_height = height (codecpar vid_stream);
                 pixel_format = format (codecpar vid_stream);
                 (error_code, cc, tr2) = retrieve_codec_context eng (codecpar vid_stream) tr;
                 context2 = context1\<lparr>codec_context := cc\<rparr>;
                 tr3 = tr2 @ [Avio_context_free, Avformat_close_input]
             in if error_code \<noteq> 0 then
                  Some (0,
                        ThrowNew exception_class
                          (snprintf 256 (''Context initialization failed, error code: '' @ show_int (sint error_code)))
                          (w\<lparr>mem := (mem w)(addr \<mapsto> context2), calls := tr3\<rparr>))
                else
                  let sws = sws_getContext eng video_width video_height pixel_format;
                      context3 = context2\<lparr>sws_context := sws\<rparr>;
                      tr4 = tr3 @ [Sws_getContext (sws \<noteq> None)]
                  in if sws = None then
                       Some (0,
                             ThrowNew exception_class
                               (snprintf 256 (''SWS context initialization failed, error code: '' @ show_int (sint error_code)))
                               (w\<lparr>mem := (mem w)(addr \<mapsto> context3), calls := tr4\<rparr>))
                     else
                       let context4 =
                             context3\<lparr>buffer := calloc_bytes (sint (video_width * video_height * 3)),
                                      packet := Some (av_packet_alloc eng),
                                      frame := Some (av_frame_alloc eng)\<rparr>
                       in Some (addr,
                                w\<lparr>mem := (mem w)(addr \<mapsto> context4),
                                  calls := tr4 @ [Calloc, Av_packet_alloc, Av_frame_alloc]\<rparr>)
      else
        Some (0,
              ThrowNew exception_class
                (snprintf 256 (''Context '' @ show_int (sint context_type) @ '' is not supported'')) w))"

subsection \<open>\<open>freeContext\<close>\<close>

definition freeContext ::
  "('p, 'f, 'c, 's) world \<Rightarrow> jlong \<Rightarrow> cint \<Rightarrow> ('p, 'f, 'c, 's) world option" where
  "freeContext w context_address context_type =
     (if context_type = 0 then
        (case mem w context_address of None \<Rightarrow> None
         | Some context \<Rightarrow>
           Some (w\<lparr>mem := (mem w)(context_address := None),
                   calls := calls w @ [Avcodec_free_context, Av_frame_free, Av_packet_free,
                                       Sws_freeContext, Free, Free]\<rparr>))
      else Some w)"

subsection \<open>Vocabulary of the properties\<close>

text \<open>
  What the properties say of a scratch array: the pixels it holds, three bytes each, packed
  one after the other.
\<close>

definition packed :: "byte list \<Rightarrow> 32 word list" where
  "packed buf =
     map (\<lambda>k. pack_pixel (buf ! (3 * k)) (buf ! (3 * k + 1)) (buf ! (3 * k + 2)))
       [0..<length buf div 3]"

text \<open>
  A step of the decode loop has failed when its call returned a code other than 0; the
  message the code formats for it.
\<close>

fun step_failed :: "call \<Rightarrow> bool" where
  "step_failed (Av_read_frame e) = (e \<noteq> 0)"
| "step_failed (Avcodec_send_packet e) = (e \<noteq> 0)"
| "step_failed (Avcodec_receive_frame e) = (e \<noteq> 0)"
| "step_failed _ = False"

fun failure_message :: "call \<Rightarrow> string" where
  "failure_message (Av_read_frame e) =
     ''AVPacket initialization failed, error code: '' @ show_int (sint e)"
| "failure_message (Avcodec_send_packet e) = ''Decoding failed, error code '' @ show_int (sint e)"
| "failure_message (Avcodec_receive_frame e) = ''Decoding failed, error code '' @ show_int (sint e)"
| "failure_message _ = []"



text \<open>
  What a call of \<open>decodeFrames\<close> leaves of a context as it was: the frame rate, the
  scaler, the size of the scratch array, and which fields are \<open>NULL\<close>.
\<close>

definition same_shape ::
  "('p, 'f, 'c, 's) context0 \<Rightarrow> ('p, 'f, 'c, 's) context0 \<Rightarrow> bool" where
  "same_shape c c' =
     (frame_rate c' = frame_rate c \<and> sws_context c' = sws_context c
      \<and> map_option length (buffer c') = map_option length (buffer c)
      \<and> (frame c' = None) = (frame c = None)
      \<and> (packet c' = None) = (packet c = None)
      \<and> (codec_context c' = None) = (codec_context c = None))"

text \<open>
  \<open>completed\<close>: \<open>n\<close> rounds of the loop, started from a format context, a context and a
  trace, run to their end (each appends an image), and what they leave. \<open>failing_step\<close>:
  the call that fails in the round started from a format context and a context, the first of
  the round to return a code other than 0, if the round gets that far (no \<open>NULL\<close> handed to
  the engine before) and has one.
\<close>

definition failing_step ::
  "('d, 'p, 'f, 'c, 's) engine \<Rightarrow> 'd \<Rightarrow> ('p, 'f, 'c, 's) context0 \<Rightarrow> call option" where
  "failing_step eng fc c =
     (case packet c of None \<Rightarrow> None
      | Some pk \<Rightarrow>
        let (e1, fc1, pk1) = av_read_frame eng fc pk
        in if e1 \<noteq> 0 then Some (Av_read_frame e1)
           else
             (case codec_context c of None \<Rightarrow> None
              | Some cc \<Rightarrow>
                let (e2, cc2) = avcodec_send_packet eng cc pk1
                in if e2 \<noteq> 0 then Some (Avcodec_send_packet e2)
                   else
                     (case frame c of None \<Rightarrow> None
                      | Some fr \<Rightarrow>
                        let (e3, cc3, fr3) = avcodec_receive_frame eng cc2 fr
                        in if e3 \<noteq> 0 then Some (Avcodec_receive_frame e3) else None)))"

fun completed ::
  "('d, 'p, 'f, 'c, 's) engine \<Rightarrow> cint \<Rightarrow> cint \<Rightarrow> nat \<Rightarrow> 'd \<Rightarrow> ('p, 'f, 'c, 's) context0 \<Rightarrow> call list
     \<Rightarrow> ('d \<times> ('p, 'f, 'c, 's) context0 \<times> call list) option" where
  "completed eng vw vh 0 fc c tr = Some (fc, c, tr)"
| "completed eng vw vh (Suc n) fc c tr =
     (case decode_step eng vw vh fc c tr of
        Some (Inr java_frame, fc', c', tr') \<Rightarrow> completed eng vw vh n fc' c' tr'
      | _ \<Rightarrow> None)"

subsection \<open>A small engine for concrete runs\<close>

text \<open>
  A stand-in engine on which the definitions above run: the clip is a list of bytes, one
  packet per byte, and never empty; the single stream is 1 x 1 (0 x 1, which no scaler
  takes, when the clip starts with a zero byte) and declares as many frames as the clip has
  bytes; a packet \<open>0xff\<close> is refused by the decoder; the decoder keeps the
  packets it was sent and hands out the last one as the frame; the scaler turns the frame
  \<open>f\<close> into the pixel \<open>(f, f + 1, f + 2)\<close>. Reading past the last packet gives
  \<open>AVERROR_EOF\<close>.
\<close>

definition toy_stream :: "byte list \<Rightarrow> AVStream" where
  "toy_stream d =
     \<lparr>nb_frames = of_nat (length d),
      codecpar = \<lparr>codec_id = 27, width = (if d \<noteq> [] \<and> hd d = 0 then 0 else 1), height = 1,
                  format = 0\<rparr>\<rparr>"

definition toy_engine :: "(byte list, byte, byte, byte list, unit) engine" where
  "toy_engine =
     \<lparr>avformat_open_input = (\<lambda>media. (if media = [] then - 1094995529 else 0, media)),
      avformat_find_stream_info = (\<lambda>d. (0, d)),
      streams0 = toy_stream,
      av_read_frame = (\<lambda>d p. case d of [] \<Rightarrow> (- 541478725, [], p) | b # bs \<Rightarrow> (0, bs, b)),
      avcodec_send_packet = (\<lambda>c p. if p = 255 then (- 1094995529, c) else (0, c @ [p])),
      avcodec_receive_frame = (\<lambda>c f. if c = [] then (- 11, c, f) else (0, c, last c)),
      av_packet_unref = (\<lambda>p. 0),
      av_frame_unref = (\<lambda>f. 0),
      sws_scale = (\<lambda>s f h stride. [f, f + 1, f + 2]),
      avcodec_find_decoder = (\<lambda>i. i = 27),
      avcodec_alloc_context3 = (\<lambda>i. []),
      avcodec_parameters_to_context = (\<lambda>c p. (0, c)),
      avcodec_open2 = (\<lambda>c i. (0, c)),
      sws_getContext = (\<lambda>w h f. if w = 0 \<or> h = 0 then None else Some ()),
      av_packet_alloc = 0,
      av_frame_alloc = 0\<rparr>"

definition toy_context :: "64 word \<Rightarrow> (byte, byte, byte list, unit) context0" where
  "toy_context rate =
     \<lparr>frame = Some 0, packet = Some 0, buffer = Some [0, 0, 0], codec_context = Some [],
      sws_context = Some (), frame_rate = rate\<rparr>"

definition toy_world :: "64 word \<Rightarrow> (byte, byte, byte list, unit) world" where
  "toy_world rate = \<lparr>mem = [16 \<mapsto> toy_context rate], pending = None, calls = []\<rparr>"

definition empty_world :: "(byte, byte, byte list, unit) world" where
  "empty_world = \<lparr>mem = Map.empty, pending = None, calls = []\<rparr>"

text \<open>
  Two variants: a decoder that takes a packet and has no frame yet (\<open>EAGAIN\<close>), and a
  stream of 32768 x 32768 pixels.
\<close>

definition stalling_engine :: "(byte list, byte, byte, byte list, unit) engine" where
  "stalling_engine = toy_engine\<lparr>avcodec_receive_frame := (\<lambda>c f. (- 11, c, f))\<rparr>"



section \<open>Auxiliary facts\<close>

subsection \<open>A formatted 32-bit code always fits the message buffer\<close>

lemma length_show_nat: "n < 10 ^ k \<Longrightarrow> 0 < k \<Longrightarrow> length (show_nat n) \<le> k"
proof (induction n arbitrary: k rule: show_nat.induct)
  case (1 n)
  show ?case
  proof (cases "n < 10")
    case True
    then show ?thesis using 1(3) by (simp add: show_nat.simps [of n])
  next
    case False
    then obtain k' where k: "k = Suc k'" and k': "0 < k'"
      using 1(2,3) by (cases k; cases "k - 1") auto
    have "n div 10 < 10 ^ k'" using 1(2) k by (simp add: less_mult_imp_div_less)
    then have "length (show_nat (n div 10)) \<le> k'" using 1(1) False k' by simp
    then show ?thesis using False k by (simp add: show_nat.simps [of n])
  qed
qed

lemma length_show_int: "length (show_int (sint (c :: cint))) \<le> 11"
proof -
  have lo: "- (2 ^ 31) \<le> sint c" using sint_ge [of c] by simp
  have hi: "sint c < 2 ^ 31" using sint_lt [of c] by simp
  have "nat \<bar>sint c\<bar> < 10 ^ 10" using lo hi by simp
  then have "length (show_nat (nat \<bar>sint c\<bar>)) \<le> 10" by (rule length_show_nat) simp
  then show ?thesis by (auto simp: show_int_def abs_if split: if_splits)
qed

lemma snprintf_fits: "length s < n \<Longrightarrow> snprintf n s = s"
  by (simp add: snprintf_def)

lemma snprintf_code:
  fixes c :: cint
  assumes "length pre + length post + 11 < n"
  shows "snprintf n (pre @ show_int (sint c) @ post) = pre @ show_int (sint c) @ post"
  using assms length_show_int [of c] by (intro snprintf_fits) simp

lemma snprintf_code_end:
  fixes c :: cint
  assumes "length pre + 11 < n"
  shows "snprintf n (pre @ show_int (sint c)) = pre @ show_int (sint c)"
  using snprintf_code [of pre "[]" n c] assms by simp


subsection \<open>The pixel loop\<close>

lemma pack_masks:
  "(0xff0000 :: 32 word) = push_bit 16 (mask 8)"
  "(0xff00 :: 32 word) = push_bit 8 (mask 8)"
  "(0xff :: 32 word) = mask 8"
  "(0xff000000 :: 32 word) = push_bit 24 (mask 8)"
  by (simp_all add: mask_eq_exp_minus_1 push_bit_eq_mult)

lemma pack_pixel_value:
  "pack_pixel r g b = push_bit 16 (ucast r) OR push_bit 8 (ucast g) OR ucast b"
  unfolding pack_pixel_def pack_masks
  by (rule bit_word_eqI) (auto simp: bit_simps dest: bit_imp_le_length)

lemma pack_pixel_alpha: "pack_pixel r g b AND 0xff000000 = 0"
  unfolding pack_pixel_def pack_masks
  by (rule bit_word_eqI) (auto simp: bit_simps dest: bit_imp_le_length)

lemma pack_loop_inv:
  assumes "length buf = 3 * n" and "int (3 * n) \<le> INT_MAX"
  shows "length pixels = n \<Longrightarrow> j \<le> n \<Longrightarrow>
         pack_loop buf (int (3 * n)) (3 * j) j pixels =
           Some (take j pixels @
                 map (\<lambda>k. pack_pixel (buf ! (3 * k)) (buf ! (3 * k + 1)) (buf ! (3 * k + 2))) [j..<n])"
proof (induction "n - j" arbitrary: j pixels)
  case 0
  then have "j = n" by simp
  then show ?case using 0 by (simp add: pack_loop.simps [of buf _ "3 * n"])
next
  case (Suc d)
  then have lt: "j < n" by simp
  let ?v = "pack_pixel (buf ! (3 * j)) (buf ! (3 * j + 1)) (buf ! (3 * j + 2))"
  have step: "pack_loop buf (int (3 * n)) (3 * j) j pixels =
              pack_loop buf (int (3 * n)) (3 * Suc j) (Suc j) (pixels[j := ?v])"
    using lt assms Suc.prems by (subst pack_loop.simps) (simp add: INT_MAX_def add.commute)
  have "pack_loop buf (int (3 * n)) (3 * Suc j) (Suc j) (pixels[j := ?v]) =
        Some (take (Suc j) (pixels[j := ?v]) @
              map (\<lambda>k. pack_pixel (buf ! (3 * k)) (buf ! (3 * k + 1)) (buf ! (3 * k + 2))) [Suc j..<n])"
    using Suc.hyps(2) Suc.prems lt by (intro Suc.hyps(1)) auto
  moreover have "take (Suc j) (pixels[j := ?v]) = take j pixels @ [?v]"
    using lt Suc.prems by (simp add: take_Suc_conv_app_nth)
  ultimately show ?case using step lt by (simp add: upt_conv_Cons)
qed

lemma sint_mult_in_range:
  fixes a b :: cint
  assumes "- (2 ^ 31) \<le> sint a * sint b" and "sint a * sint b < 2 ^ 31"
  shows "sint (a * b) = sint a * sint b"
  using assms by (simp add: sint_word_ariths signed_take_bit_int_eq_self)

lemma pack_pixels_packed:
  fixes w h :: cint
  assumes len: "int (length buf) = sint w * sint h * 3" and fit: "sint w * sint h * 3 \<le> INT_MAX"
  shows "pack_pixels w h buf = Some (packed buf)"
proof -
  have nn: "0 \<le> sint w * sint h" using len by (smt (verit) of_nat_0_le_iff)
  have wh: "sint (w * h) = sint w * sint h"
    using nn fit by (intro sint_mult_in_range) (simp_all add: INT_MAX_def)
  have "sint (w * h * 3) = sint (w * h) * sint (3 :: cint)"
    using nn fit wh by (intro sint_mult_in_range) (simp_all add: INT_MAX_def)
  then have wh3: "sint (w * h * 3) = sint w * sint h * 3" using wh by simp
  define n where "n = nat (sint w * sint h)"
  have l: "length buf = 3 * n" using len nn by (simp add: n_def nat_eq_iff)
  have b: "int (3 * n) = sint w * sint h * 3" using nn by (simp add: n_def)
  have fit': "int (3 * n) \<le> INT_MAX" using fit b by simp
  have "pack_loop buf (int (3 * n)) (3 * 0) 0 (replicate n 0) = Some (packed buf)"
    by (subst pack_loop_inv [OF l fit']) (simp_all add: packed_def l)
  then show ?thesis
    unfolding pack_pixels_def wh wh3 using nn
    by (simp add: b [symmetric] n_def [symmetric])
qed

lemma length_packed: "length (packed buf) = length buf div 3"
  by (simp add: packed_def)

subsection \<open>Messages\<close>

lemma snprintf_Cons: "1 < n \<Longrightarrow> snprintf n (c # s) = c # snprintf (n - 1) s"
  by (cases n; cases "n - 1") (auto simp: snprintf_def)

lemma snprintf_show_int: "11 < n \<Longrightarrow> snprintf n (show_int (sint (c :: cint))) = show_int (sint c)"
  using length_show_int [of c] by (intro snprintf_fits) simp

lemma snprintf_show_int_append:
  "length post + 11 < n \<Longrightarrow>
   snprintf n (show_int (sint (c :: cint)) @ post) = show_int (sint c) @ post"
  using length_show_int [of c] by (intro snprintf_fits) simp

lemmas snprintf_simps = snprintf_Cons snprintf_show_int snprintf_show_int_append

lemma snprintf_Nil: "snprintf n [] = []"
  by (simp add: snprintf_def)

subsection \<open>The trace of the decode loop\<close>

lemma decode_step_trace:
  assumes "decode_step eng vw vh fc c tr = Some (r, fc', c', tr')"
  shows "\<exists>ext. tr' = tr @ ext \<and>
           (case r of
              Inr img \<Rightarrow> filter step_failed ext = []
            | Inl msg \<Rightarrow>
                (\<exists>f pre. filter step_failed ext = [f] \<and> msg = failure_message f
                   \<and> ext = pre @ [Avio_context_free, Avformat_close_input]))"
  using assms
  by (auto simp: decode_step_def Let_def snprintf_simps split: option.splits prod.splits if_splits)

lemma decode_loop_trace:
  assumes "decode_loop eng vw vh n fc c acc tr = Some (r, c', tr')"
  shows "\<exists>ext pre. tr' = tr @ ext \<and> ext = pre @ [Avio_context_free, Avformat_close_input] \<and>
           (case r of
              Inr imgs \<Rightarrow> filter step_failed ext = []
            | Inl msg \<Rightarrow> (\<exists>f. filter step_failed ext = [f] \<and> msg = failure_message f))"
  using assms
proof (induction n arbitrary: fc c acc tr)
  case 0
  then show ?case by auto
next
  case (Suc n)
  from Suc.prems obtain r1 fc1 c1 tr1 where
    st: "decode_step eng vw vh fc c tr = Some (r1, fc1, c1, tr1)"
    by (auto split: option.splits)
  from decode_step_trace [OF st] obtain ext1 where
    e1: "tr1 = tr @ ext1" and
    k1: "case r1 of Inr img \<Rightarrow> filter step_failed ext1 = []
         | Inl msg \<Rightarrow> (\<exists>f pre. filter step_failed ext1 = [f] \<and> msg = failure_message f
                   \<and> ext1 = pre @ [Avio_context_free, Avformat_close_input])"
    by blast
  show ?case
  proof (cases r1)
    case (Inl msg)
    then have "r = Inl msg" "tr' = tr1" using Suc.prems st by auto
    then show ?thesis using e1 k1 Inl by auto
  next
    case (Inr img)
    then have "decode_loop eng vw vh n fc1 c1 (acc @ [img]) tr1 = Some (r, c', tr')"
      using Suc.prems st by simp
    from Suc.IH [OF this] obtain ext pre where
      "tr' = tr1 @ ext" "ext = pre @ [Avio_context_free, Avformat_close_input]"
      "case r of Inr imgs \<Rightarrow> filter step_failed ext = []
       | Inl msg \<Rightarrow> (\<exists>f. filter step_failed ext = [f] \<and> msg = failure_message f)"
      by blast
    then show ?thesis using e1 k1 Inr
      by (intro exI [of _ "ext1 @ ext"] exI [of _ "ext1 @ pre"]) (auto split: sum.splits)
  qed
qed


lemma retrieve_video_format_context_trace:
  assumes "retrieve_video_format_context eng media tr = (e, fc, tr')"
  shows "\<exists>ext. tr' = tr @ ext \<and> filter step_failed ext = []"
  using assms
  by (auto simp: retrieve_video_format_context_def Let_def split: prod.splits if_splits)

lemma single_failure:
  assumes "filter step_failed tr = [f]" and "g \<in> set tr" and "step_failed g"
  shows "g = f"
proof -
  have "g \<in> set (filter step_failed tr)" using assms(2,3) by simp
  then show ?thesis using assms(1) by simp
qed

subsection \<open>Running the small engine\<close>

lemma toy_engine_sel:
  "avformat_open_input toy_engine = (\<lambda>media. (if media = [] then - 1094995529 else 0, media))"
  "avformat_find_stream_info toy_engine = (\<lambda>d. (0, d))"
  "streams0 toy_engine = toy_stream"
  "av_read_frame toy_engine = (\<lambda>d p. case d of [] \<Rightarrow> (- 541478725, [], p) | b # bs \<Rightarrow> (0, bs, b))"
  "avcodec_send_packet toy_engine = (\<lambda>c p. if p = 255 then (- 1094995529, c) else (0, c @ [p]))"
  "avcodec_receive_frame toy_engine = (\<lambda>c f. if c = [] then (- 11, c, f) else (0, c, last c))"
  "av_packet_unref toy_engine = (\<lambda>p. 0)"
  "av_frame_unref toy_engine = (\<lambda>f. 0)"
  "sws_scale toy_engine = (\<lambda>s f h stride. [f, f + 1, f + 2])"
  "avcodec_find_decoder toy_engine = (\<lambda>i. i = 27)"
  "avcodec_alloc_context3 toy_engine = (\<lambda>i. [])"
  "avcodec_parameters_to_context toy_engine = (\<lambda>c p. (0, c))"
  "avcodec_open2 toy_engine = (\<lambda>c i. (0, c))"
  "sws_getContext toy_engine = (\<lambda>w h f. if w = 0 \<or> h = 0 then None else Some ())"
  "av_packet_alloc toy_engine = 0"
  "av_frame_alloc toy_engine = 0"
  by (simp_all add: toy_engine_def)

lemma decode_loop_numeral:
  "decode_loop eng vw vh (numeral k) fc c acc tr =
     (case decode_step eng vw vh fc c tr of
        None \<Rightarrow> None
      | Some (Inl msg, fc', c', tr') \<Rightarrow> Some (Inl msg, c', tr')
      | Some (Inr java_frame, fc', c', tr') \<Rightarrow>
          decode_loop eng vw vh (pred_numeral k) fc' c' (acc @ [java_frame]) tr')"
  by (simp add: numeral_eq_Suc)

lemma pack_pixels_1x1: "pack_pixels 1 1 [r, g, b] = Some [pack_pixel r g b]"
proof -
  have "pack_pixels 1 1 [r, g, b] = Some (packed [r, g, b])"
    by (rule pack_pixels_packed) (simp_all add: INT_MAX_def)
  then show ?thesis by (simp add: packed_def)
qed

lemma toy_probe:
  "retrieve_video_format_context toy_engine (b # bs) tr =
     (0, b # bs, tr @ [Avio_alloc_context, Avformat_alloc_context, Avformat_open_input 0,
                      Avformat_find_stream_info 0])"
  by (simp add: retrieve_video_format_context_def toy_engine_sel)

lemma toy_step:
  "decode_step toy_engine 1 1 (b # bs)
     \<lparr>frame = Some fr, packet = Some pk, buffer = Some [x, y, z], codec_context = Some cc,
      sws_context = Some (), frame_rate = rate\<rparr> tr =
   (if b = 255 then
      Some (Inl (''Decoding failed, error code -1094995529''), bs,
            \<lparr>frame = Some fr, packet = Some b, buffer = Some [x, y, z], codec_context = Some cc,
             sws_context = Some (), frame_rate = rate\<rparr>,
            tr @ [Av_read_frame 0, Avcodec_send_packet (- 1094995529), Avio_context_free,
                  Avformat_close_input])
    else
      Some (Inr \<lparr>img_width = 1, img_height = 1, img_pixels = [pack_pixel b (b + 1) (b + 2)]\<rparr>, bs,
            \<lparr>frame = Some 0, packet = Some 0, buffer = Some [b, b + 1, b + 2],
             codec_context = Some (cc @ [b]), sws_context = Some (), frame_rate = rate\<rparr>,
            tr @ [Av_read_frame 0, Avcodec_send_packet 0, Avcodec_receive_frame 0, Sws_scale,
                  Av_frame_unref, Av_packet_unref]))"
  by (simp add: decode_step_def toy_engine_sel convert_to_java_frame_def pack_pixels_1x1
      create_java_frame_def snprintf_simps snprintf_Nil show_int_def show_nat.simps)

lemma toy_step_eof:
  "decode_step toy_engine 1 1 []
     \<lparr>frame = Some fr, packet = Some pk, buffer = Some [x, y, z], codec_context = Some cc,
      sws_context = Some (), frame_rate = rate\<rparr> tr =
   Some (Inl (''AVPacket initialization failed, error code: -541478725''), [],
         \<lparr>frame = Some fr, packet = Some pk, buffer = Some [x, y, z], codec_context = Some cc,
          sws_context = Some (), frame_rate = rate\<rparr>,
         tr @ [Av_read_frame (- 541478725), Avio_context_free, Avformat_close_input])"
  by (simp add: decode_step_def toy_engine_sel snprintf_simps snprintf_Nil show_int_def show_nat.simps)


lemma toy_world_sel:
  "mem (toy_world rate) 16 = Some (toy_context rate)"
  "calls (toy_world rate) = []"
  "pending (toy_world rate) = None"
  by (simp_all add: toy_world_def)

lemmas toy_run =
  decodeFrames_def toy_probe toy_world_sel toy_context_def toy_engine_sel(3) toy_stream_def
  decode_loop_numeral toy_step toy_step_eof ThrowNew_def exception_class_def

subsection \<open>A loop over frames the engine delivers\<close>



lemma probe_ok_trace:
  assumes "retrieve_video_format_context eng media tr = (0, fc, tr')"
  shows "tr' = tr @ [Avio_alloc_context, Avformat_alloc_context, Avformat_open_input 0,
                     Avformat_find_stream_info 0]"
  using assms
  by (auto simp: retrieve_video_format_context_def Let_def split: prod.splits if_splits)


subsection \<open>A successful \<open>initContext\<close>\<close>

lemma retrieve_codec_context_ok:
  assumes "retrieve_codec_context eng params tr = (0, cc, tr')"
  shows "cc \<noteq> None"
  using assms
  by (auto simp: retrieve_codec_context_def Let_def split: prod.splits if_splits)

lemma initContext_success:
  assumes "initContext eng w addr encoded_video 0 = Some (h, w1)" and "h \<noteq> 0"
  shows "\<exists>fc tr cc sws.
           retrieve_video_format_context eng encoded_video (calls w @ [Calloc]) = (0, fc, tr)
         \<and> h = addr
         \<and> mem w1 h =
             Some \<lparr>frame = Some (av_frame_alloc eng), packet = Some (av_packet_alloc eng),
                   buffer = calloc_bytes (sint (width (codecpar (streams0 eng fc))
                                                * height (codecpar (streams0 eng fc)) * 3)),
                   codec_context = Some cc, sws_context = Some sws,
                   frame_rate = nb_frames (streams0 eng fc)\<rparr>
         \<and> pending w1 = pending w"
proof -
  obtain e0 fc tr where probe:
    "retrieve_video_format_context eng encoded_video (calls w @ [Calloc]) = (e0, fc, tr)"
    by (cases "retrieve_video_format_context eng encoded_video (calls w @ [Calloc])") auto
  obtain e1 cc tr2 where codec:
    "retrieve_codec_context eng (codecpar (streams0 eng fc)) tr = (e1, cc, tr2)"
    by (cases "retrieve_codec_context eng (codecpar (streams0 eng fc)) tr") auto
  have e0: "e0 = 0"
    using assms probe by (auto simp: initContext_def ThrowNew_def split: if_splits)
  have addr: "addr \<noteq> 0"
    using assms probe e0 by (auto simp: initContext_def split: if_splits)
  have e1: "e1 = 0"
    using assms probe e0 addr codec
    by (auto simp: initContext_def Let_def ThrowNew_def split: if_splits)
  from retrieve_codec_context_ok codec e1 obtain c where cc: "cc = Some c" by blast
  show ?thesis
    using assms probe e0 addr codec e1 cc
    by (auto simp: initContext_def Let_def ThrowNew_def zeroed_context0_def split: if_splits)
qed


lemma toy_init:
  "b \<noteq> 0 \<Longrightarrow>
   initContext toy_engine empty_world 16 (b # bs) 0 =
     Some (16,
           \<lparr>mem = [16 \<mapsto> toy_context (of_nat (length (b # bs)))], pending = None,
            calls = [Calloc, Avio_alloc_context, Avformat_alloc_context, Avformat_open_input 0,
                     Avformat_find_stream_info 0, Avcodec_find_decoder True,
                     Avcodec_alloc_context3, Avcodec_parameters_to_context 0, Avcodec_open2 0,
                     Avio_context_free, Avformat_close_input, Sws_getContext True, Calloc,
                     Av_packet_alloc, Av_frame_alloc]\<rparr>)"
  by (simp add: initContext_def empty_world_def toy_probe toy_engine_sel toy_stream_def
      retrieve_codec_context_def zeroed_context0_def calloc_bytes_def toy_context_def
      numeral_3_eq_3)

subsection \<open>What the decode loop leaves unchanged\<close>

lemma same_shape_refl: "same_shape c c"
  by (simp add: same_shape_def)

lemma same_shape_trans: "same_shape a b \<Longrightarrow> same_shape b c \<Longrightarrow> same_shape a c"
  by (auto simp: same_shape_def)

lemma decode_step_shape:
  assumes "decode_step eng vw vh fc c tr = Some (r, fc', c', tr')"
  shows "same_shape c c'"
  using assms
  by (auto simp: decode_step_def Let_def convert_to_java_frame_def same_shape_def
      split: option.splits prod.splits if_splits)

lemma decode_loop_shape:
  assumes "decode_loop eng vw vh n fc c acc tr = Some (r, c', tr')"
  shows "same_shape c c'"
  using assms
proof (induction n arbitrary: fc c acc tr)
  case 0
  then show ?case by (simp add: same_shape_refl)
next
  case (Suc n)
  from Suc.prems obtain r1 fc1 c1 tr1 where
    st: "decode_step eng vw vh fc c tr = Some (r1, fc1, c1, tr1)"
    by (auto split: option.splits)
  have s1: "same_shape c c1" by (rule decode_step_shape [OF st])
  show ?case
  proof (cases r1)
    case (Inl msg)
    then have "c' = c1" using Suc.prems st by auto
    then show ?thesis using s1 by simp
  next
    case (Inr img)
    then have "decode_loop eng vw vh n fc1 c1 (acc @ [img]) tr1 = Some (r, c', tr')"
      using Suc.prems st by simp
    then have "same_shape c1 c'" by (rule Suc.IH)
    then show ?thesis using s1 by (blast intro: same_shape_trans)
  qed
qed

lemma decodeFrames_keeps_shape:
  assumes run: "decodeFrames eng w context_address context_type encoded_video offset total_frames
                  = Some (res, w')"
    and ctx: "mem w context_address = Some c"
  shows "\<exists>c'. mem w' context_address = Some c' \<and> same_shape c c'"
proof (cases "context_type = 0")
  case False
  then have "mem w' = mem w" using run by (auto simp: decodeFrames_def ThrowNew_def)
  then show ?thesis using ctx by (simp add: same_shape_refl)
next
  case True
  obtain e0 fc tr0 where probe:
    "retrieve_video_format_context eng encoded_video (calls w) = (e0, fc, tr0)"
    by (cases "retrieve_video_format_context eng encoded_video (calls w)") auto
  show ?thesis
  proof (cases "e0 = 0")
    case False
    then have "mem w' = mem w"
      using run True probe by (auto simp: decodeFrames_def ThrowNew_def split: if_splits)
    then show ?thesis using ctx by (simp add: same_shape_refl)
  next
    case e0: True
    have nn: "\<not> sint total_frames < 0"
      using run True probe e0 by (auto simp: decodeFrames_def Let_def split: if_splits)
    from run True probe e0 nn ctx obtain r c' tr' where
      loop: "decode_loop eng (width (codecpar (streams0 eng fc))) (height (codecpar (streams0 eng fc)))
               (nat (sint total_frames)) fc c [] tr0 = Some (r, c', tr')"
      by (auto simp: decodeFrames_def Let_def split: option.splits)
    have "mem w' = (mem w)(context_address \<mapsto> c')"
      using run True probe e0 nn ctx loop
      by (auto simp: decodeFrames_def Let_def ThrowNew_def split: sum.splits)
    then show ?thesis using decode_loop_shape [OF loop] by simp
  qed
qed

subsection \<open>Failures of the probing and of the scaler\<close>

lemma probe_failure_trace:
  assumes "retrieve_video_format_context eng media tr = (e, fc, tr')" and "e \<noteq> 0"
  shows "(\<exists>rc. tr' = tr @ [Avio_alloc_context, Avformat_alloc_context, Avformat_open_input rc])
       \<or> tr' = tr @ [Avio_alloc_context, Avformat_alloc_context, Avformat_open_input 0,
                     Avformat_find_stream_info e]"
  using assms
  by (auto simp: retrieve_video_format_context_def Let_def split: prod.splits if_splits)

lemma toy_probe_failure:
  "retrieve_video_format_context toy_engine [] tr =
     (- 1094995529, [], tr @ [Avio_alloc_context, Avformat_alloc_context,
                             Avformat_open_input (- 1094995529)])"
  by (simp add: retrieve_video_format_context_def toy_engine_sel)

text \<open>
  In \<open>decodeFrames\<close> a failed \<open>avformat_find_stream_info\<close> is followed by the release of
  the format context.
\<close>

lemma decodeFrames_probe_failure_releases:
  assumes "retrieve_video_format_context eng encoded_video (calls w) = (e, fc, tr)" and "e \<noteq> 0"
    and "fst (avformat_open_input eng encoded_video) = 0"
  shows "\<exists>w'. decodeFrames eng w context_address 0 encoded_video offset total_frames = Some (None, w')
           \<and> calls w' = tr @ [Avio_context_free, Avformat_close_input]"
  using assms by (simp add: decodeFrames_def ThrowNew_def)

lemma initContext_scaler_failure_message:
  assumes "retrieve_video_format_context eng encoded_video (calls w @ [Calloc]) = (0, fc, tr)"
    and "retrieve_codec_context eng (codecpar (streams0 eng fc)) tr = (0, cc, tr2)"
    and "sws_getContext eng (width (codecpar (streams0 eng fc))) (height (codecpar (streams0 eng fc)))
           (format (codecpar (streams0 eng fc))) = None"
    and "addr \<noteq> 0"
  shows "\<exists>w'. initContext eng w addr encoded_video 0 = Some (0, w')
           \<and> pending w' =
               Some (''common/DecodingException'', ''SWS context initialization failed, error code: 0'')
           \<and> calls w' = tr2 @ [Avio_context_free, Avformat_close_input, Sws_getContext False]"
  using assms
  by (simp add: initContext_def Let_def ThrowNew_def exception_class_def snprintf_simps snprintf_Nil
      show_int_def show_nat.simps)

lemma toy_scaler_failure:
  "\<exists>w'. initContext toy_engine empty_world 16 [0, 16] 0 = Some (0, w')
       \<and> pending w' =
           Some (''common/DecodingException'', ''SWS context initialization failed, error code: 0'')"
  by (simp add: initContext_def empty_world_def toy_probe toy_engine_sel toy_stream_def
      retrieve_codec_context_def zeroed_context0_def ThrowNew_def exception_class_def
      snprintf_simps snprintf_Nil show_int_def show_nat.simps)

subsection \<open>A round of the loop that fails\<close>

lemma failing_step_aborts:
  assumes "failing_step eng fc c = Some f"
  shows "\<exists>e fc' c' mid.
           e \<noteq> 0
         \<and> (f = Av_read_frame e \<or> f = Avcodec_send_packet e \<or> f = Avcodec_receive_frame e)
         \<and> f \<in> set mid
         \<and> decode_step eng vw vh fc c tr =
             Some (Inl ((if f = Av_read_frame e then ''AVPacket initialization failed, error code: ''
                         else ''Decoding failed, error code '') @ show_int (sint e)),
                   fc', c', tr @ mid @ [Avio_context_free, Avformat_close_input])"
proof -
  from assms obtain pk where pk: "packet c = Some pk"
    by (auto simp: failing_step_def split: option.splits)
  obtain e1 fc1 pk1 where r: "av_read_frame eng fc pk = (e1, fc1, pk1)"
    by (cases "av_read_frame eng fc pk") auto
  show ?thesis
  proof (cases "e1 = 0")
    case False
    then have f: "f = Av_read_frame e1" using assms pk r by (simp add: failing_step_def)
    have "decode_step eng vw vh fc c tr =
            Some (Inl (''AVPacket initialization failed, error code: '' @ show_int (sint e1)),
                  fc1, c\<lparr>packet := Some pk1\<rparr>,
                  tr @ [Av_read_frame e1] @ [Avio_context_free, Avformat_close_input])"
      using pk r False by (simp add: decode_step_def snprintf_simps)
    then show ?thesis using f False
      by (intro exI [of _ e1] exI [of _ fc1] exI [of _ "c\<lparr>packet := Some pk1\<rparr>"]
          exI [of _ "[Av_read_frame e1]"]) simp
  next
    case e1: True
    from assms pk r e1 obtain cc where cc: "codec_context c = Some cc"
      by (auto simp: failing_step_def split: option.splits)
    obtain e2 cc2 where s: "avcodec_send_packet eng cc pk1 = (e2, cc2)"
      by (cases "avcodec_send_packet eng cc pk1") auto
    show ?thesis
    proof (cases "e2 = 0")
      case False
      then have f: "f = Avcodec_send_packet e2"
        using assms pk r e1 cc s by (simp add: failing_step_def)
      have "decode_step eng vw vh fc c tr =
              Some (Inl (''Decoding failed, error code '' @ show_int (sint e2)),
                    fc1, c\<lparr>packet := Some pk1, codec_context := Some cc2\<rparr>,
                    tr @ [Av_read_frame 0, Avcodec_send_packet e2]
                       @ [Avio_context_free, Avformat_close_input])"
        using pk r e1 cc s False by (simp add: decode_step_def snprintf_simps)
      then show ?thesis using f False
        by (intro exI [of _ e2] exI [of _ fc1]
            exI [of _ "c\<lparr>packet := Some pk1, codec_context := Some cc2\<rparr>"]
            exI [of _ "[Av_read_frame 0, Avcodec_send_packet e2]"]) simp
    next
      case e2: True
      from assms pk r e1 cc s e2 obtain fr where fr: "frame c = Some fr"
        by (auto simp: failing_step_def split: option.splits)
      obtain e3 cc3 fr3 where v: "avcodec_receive_frame eng cc2 fr = (e3, cc3, fr3)"
        by (cases "avcodec_receive_frame eng cc2 fr") auto
      have e3: "e3 \<noteq> 0" and f: "f = Avcodec_receive_frame e3"
        using assms pk r e1 cc s e2 fr v by (auto simp: failing_step_def split: if_splits)
      have "decode_step eng vw vh fc c tr =
              Some (Inl (''Decoding failed, error code '' @ show_int (sint e3)),
                    fc1, c\<lparr>packet := Some pk1, codec_context := Some cc2,
                           codec_context := Some cc3, frame := Some fr3,
                           packet := Some (av_packet_unref eng pk1)\<rparr>,
                    tr @ [Av_read_frame 0, Avcodec_send_packet 0, Avcodec_receive_frame e3,
                          Av_packet_unref]
                       @ [Avio_context_free, Avformat_close_input])"
        using pk r e1 cc s e2 fr v e3 by (simp add: decode_step_def snprintf_simps)
      then show ?thesis using f e3
        by (intro exI [of _ e3] exI [of _ fc1]
            exI [of _ "c\<lparr>packet := Some pk1, codec_context := Some cc2,
                           codec_context := Some cc3, frame := Some fr3,
                           packet := Some (av_packet_unref eng pk1)\<rparr>"]
            exI [of _ "[Av_read_frame 0, Avcodec_send_packet 0, Avcodec_receive_frame e3,
                          Av_packet_unref]"]) simp
    qed
  qed
qed

lemma decode_step_extends:
  assumes "decode_step eng vw vh fc c tr = Some (r, fc', c', tr')"
  shows "\<exists>ext. tr' = tr @ ext"
  using decode_step_trace [OF assms] by blast

lemma completed_extends:
  "completed eng vw vh n fc c tr = Some (fc_n, c_n, tr_n) \<Longrightarrow> \<exists>ext. tr_n = tr @ ext"
proof (induction n arbitrary: fc c tr)
  case 0
  then show ?case by simp
next
  case (Suc n)
  from Suc.prems obtain img fc1 c1 tr1 where
    st: "decode_step eng vw vh fc c tr = Some (Inr img, fc1, c1, tr1)" and
    rest: "completed eng vw vh n fc1 c1 tr1 = Some (fc_n, c_n, tr_n)"
    by (auto split: option.splits sum.splits)
  from decode_step_extends [OF st] Suc.IH [OF rest] show ?case by auto
qed

lemma decode_loop_after_completed:
  "completed eng vw vh n fc c tr = Some (fc_n, c_n, tr_n) \<Longrightarrow>
   \<exists>acc'. decode_loop eng vw vh (n + m) fc c acc tr = decode_loop eng vw vh m fc_n c_n acc' tr_n"
proof (induction n arbitrary: fc c tr acc)
  case 0
  then show ?case by auto
next
  case (Suc n)
  from Suc.prems obtain img fc1 c1 tr1 where
    st: "decode_step eng vw vh fc c tr = Some (Inr img, fc1, c1, tr1)" and
    rest: "completed eng vw vh n fc1 c1 tr1 = Some (fc_n, c_n, tr_n)"
    by (auto split: option.splits sum.splits)
  from Suc.IH [OF rest, of "acc @ [img]"] obtain acc' where
    "decode_loop eng vw vh (n + m) fc1 c1 (acc @ [img]) tr1 =
     decode_loop eng vw vh m fc_n c_n acc' tr_n"
    by blast
  then show ?case using st by auto
qed

text \<open>
  The other way round: a call that is defined and whose trace holds a failed step has
  returned \<open>NULL\<close>, released the format context and thrown the message of that step.
\<close>

lemma decodeFrames_failed_step_in_trace:
  assumes run: "decodeFrames eng w context_address context_type encoded_video offset total_frames
                  = Some (res, w')"
    and tr: "calls w' = calls w @ tr"
    and failed: "Av_read_frame e \<in> set tr \<or> Avcodec_send_packet e \<in> set tr
                   \<or> Avcodec_receive_frame e \<in> set tr"
    and code: "e \<noteq> 0"
  shows "res = None
       \<and> (\<exists>pre. tr = pre @ [Avio_context_free, Avformat_close_input])
       \<and> pending w' =
           Some (''common/DecodingException'',
                 (if Av_read_frame e \<in> set tr then ''AVPacket initialization failed, error code: ''
                  else ''Decoding failed, error code '') @ show_int (sint e))"
proof -
  from failed code obtain g where g: "g \<in> set tr" "step_failed g"
    "g = Av_read_frame e \<or> g = Avcodec_send_packet e \<or> g = Avcodec_receive_frame e"
    by auto
  have nonempty: "filter step_failed tr \<noteq> []"
    using g(1,2) by (auto simp: filter_empty_conv)
  have ct: "context_type = 0"
  proof (rule ccontr)
    assume "context_type \<noteq> 0"
    then have "calls w' = calls w" using run by (auto simp: decodeFrames_def ThrowNew_def)
    then show False using tr g(1) by simp
  qed
  obtain e0 fc tr0 where probe:
    "retrieve_video_format_context eng encoded_video (calls w) = (e0, fc, tr0)"
    by (cases "retrieve_video_format_context eng encoded_video (calls w)") auto
  from retrieve_video_format_context_trace [OF probe] obtain ext0 where
    ext0: "tr0 = calls w @ ext0" "filter step_failed ext0 = []"
    by blast
  have e0: "e0 = 0"
  proof (rule ccontr)
    assume "e0 \<noteq> 0"
    then have "calls w' = tr0 @ [Avio_context_free, Avformat_close_input]"
      using run ct probe by (auto simp: decodeFrames_def ThrowNew_def split: if_splits)
    then have "tr = ext0 @ [Avio_context_free, Avformat_close_input]" using tr ext0 by simp
    then show False using nonempty ext0 by simp
  qed
  let ?vw = "width (codecpar (streams0 eng fc))"
  let ?vh = "height (codecpar (streams0 eng fc))"
  have nn: "\<not> sint total_frames < 0"
    using run ct probe e0 by (auto simp: decodeFrames_def Let_def split: if_splits)
  from run ct probe e0 nn obtain c r c' tr' where
    c: "mem w context_address = Some c" and
    loop: "decode_loop eng ?vw ?vh (nat (sint total_frames)) fc c [] tr0 = Some (r, c', tr')"
    by (auto simp: decodeFrames_def Let_def split: option.splits)
  from decode_loop_trace [OF loop] obtain ext pre where
    ext: "tr' = tr0 @ ext" "ext = pre @ [Avio_context_free, Avformat_close_input]" and
    kind: "case r of Inr imgs \<Rightarrow> filter step_failed ext = []
           | Inl msg \<Rightarrow> (\<exists>f. filter step_failed ext = [f] \<and> msg = failure_message f)"
    by blast
  have w': "calls w' = tr'"
    using run ct probe e0 nn c loop
    by (auto simp: decodeFrames_def Let_def ThrowNew_def split: sum.splits)
  then have tr_eq: "tr = ext0 @ ext" using tr ext ext0 by simp
  then have filt: "filter step_failed tr = filter step_failed ext" using ext0 by simp
  show ?thesis
  proof (cases r)
    case (Inr imgs)
    then show ?thesis using kind filt nonempty by simp
  next
    case (Inl msg)
    then obtain f where f: "filter step_failed ext = [f]" "msg = failure_message f"
      using kind by auto
    have gf: "g = f" using single_failure [of tr f g] filt f(1) g by simp
    have res: "res = None" and p: "pending w' = Some (exception_class, msg)"
      using run ct probe e0 nn c loop Inl
      by (auto simp: decodeFrames_def Let_def ThrowNew_def)
    have uniq: "Av_read_frame e \<in> set tr \<Longrightarrow> g = Av_read_frame e"
      using single_failure [of tr f "Av_read_frame e"] filt f(1) gf code by simp
    have m: "msg = (if Av_read_frame e \<in> set tr then ''AVPacket initialization failed, error code: ''
                  else ''Decoding failed, error code '') @ show_int (sint e)"
    proof (cases "Av_read_frame e \<in> set tr")
      case True
      then show ?thesis using uniq gf f(2) by simp
    next
      case False
      then have "g = Avcodec_send_packet e \<or> g = Avcodec_receive_frame e" using g by auto
      then show ?thesis using False gf f(2) by auto
    qed
    have "tr = (ext0 @ pre) @ [Avio_context_free, Avformat_close_input]"
      using tr_eq ext(2) by simp
    then show ?thesis using res p m by (simp only: exception_class_def) blast
  qed
qed

lemma completed_numeral:
  "completed eng vw vh (numeral k) fc c tr =
     (case decode_step eng vw vh fc c tr of
        Some (Inr java_frame, fc', c', tr') \<Rightarrow> completed eng vw vh (pred_numeral k) fc' c' tr'
      | _ \<Rightarrow> None)"
  by (simp add: numeral_eq_Suc)

lemma stalling_probe:
  "retrieve_video_format_context stalling_engine (b # bs) tr =
     (0, b # bs, tr @ [Avio_alloc_context, Avformat_alloc_context, Avformat_open_input 0,
                      Avformat_find_stream_info 0])"
  by (simp add: retrieve_video_format_context_def stalling_engine_def toy_engine_sel)

subsection \<open>The context \<open>initContext\<close> builds and the stream \<open>decodeFrames\<close> probes\<close>





section \<open>Properties\<close>




text \<open>
  C2, as amended. For every width and height whose product times 3 fits a 32-bit \<open>int\<close>
  and every scratch array of \<open>width * height * 3\<close> bytes, the pixel conversion produces
  \<open>width * height\<close> packed pixels, pixel \<open>i\<close> being
  \<open>(byte[3i] << 16) | (byte[3i+1] << 8) | byte[3i+2]\<close> with the bits above bit 23 zero.
\<close>

theorem pack_pixels_packs_rgb:
  fixes w h :: cint
  assumes "int (length buf) = sint w * sint h * 3" and "sint w * sint h * 3 \<le> INT_MAX"
  shows "\<exists>pixels. pack_pixels w h buf = Some pixels
           \<and> int (length pixels) = sint w * sint h
           \<and> (\<forall>i < length pixels.
                 pixels ! i =
                   push_bit 16 (ucast (buf ! (3 * i))) OR push_bit 8 (ucast (buf ! (3 * i + 1)))
                     OR ucast (buf ! (3 * i + 2))
                 \<and> pixels ! i AND 0xff000000 = 0)"
proof -
  have "int (length (packed buf)) = sint w * sint h"
    using assms(1) by (simp add: length_packed zdiv_int)
  moreover have "packed buf ! i =
      push_bit 16 (ucast (buf ! (3 * i))) OR push_bit 8 (ucast (buf ! (3 * i + 1)))
        OR ucast (buf ! (3 * i + 2)) \<and> packed buf ! i AND 0xff000000 = 0"
    if "i < length (packed buf)" for i
    using that by (simp add: packed_def pack_pixel_alpha) (simp add: pack_pixel_value)
  ultimately show ?thesis using pack_pixels_packed [OF assms] by blast
qed

theorem pack_pixels_packs_rgb_witness:
  "pack_pixels 1 1 [0x12, 0x34, 0x56] = Some [0x123456]"
proof -
  have l: "int (length [0x12, 0x34, 0x56 :: byte]) = sint (1 :: cint) * sint (1 :: cint) * 3"
    by simp
  have f: "sint (1 :: cint) * sint (1 :: cint) * 3 \<le> INT_MAX"
    by (simp add: INT_MAX_def)
  obtain pixels where p: "pack_pixels 1 1 [0x12, 0x34, 0x56] = Some pixels"
    and n: "length pixels = 1"
    and v: "pixels ! 0 = push_bit 16 (ucast (0x12 :: byte)) OR push_bit 8 (ucast (0x34 :: byte))
              OR ucast (0x56 :: byte)"
    using pack_pixels_packs_rgb [OF l f] by auto
  have "pixels = [pixels ! 0]" using n by (cases pixels) auto
  then have "pixels = [0x123456]" using v by simp
  then show ?thesis using p by simp
qed

text \<open>
  C2 as first stated, for every width and height, fails; the bound is needed. At
  65536 x 32768 the pixel count \<open>width * height\<close> is \<open>2 ^ 31\<close>, which as a 32-bit \<open>int\<close>
  is negative; \<open>NewIntArray\<close> gives no array of that length and no pixel is produced,
  whatever the scratch array of \<open>width * height * 3\<close> bytes holds.
\<close>

theorem pack_pixels_overflow_counterexample:
  "pack_pixels 65536 32768 (replicate (65536 * 32768 * 3) 0) = None"
  by (simp add: pack_pixels_def)

text \<open>
  C3. Let the probing succeed, let \<open>n\<close> rounds of the loop run to their end, and let a
  step of the next round fail: \<open>av_read_frame\<close>, \<open>avcodec_send_packet\<close> or
  \<open>avcodec_receive_frame\<close> returns a code \<open>e\<close> other than 0, and \<open>total\<close> is more than
  \<open>n\<close>. Then the call is defined and returns \<open>NULL\<close>, none of the \<open>n\<close> frames decoded
  before; its last two calls release the format context (\<open>avio_context_free\<close>,
  \<open>avformat_close_input\<close>); and it throws \<open>common/DecodingException\<close> with a message that
  ends in the code \<open>e\<close>.
\<close>

theorem decodeFrames_all_or_nothing:
  assumes probe: "retrieve_video_format_context eng encoded_video (calls w) = (0, fc, tr)"
    and ctx: "mem w context_address = Some c"
    and rounds: "completed eng (width (codecpar (streams0 eng fc)))
                   (height (codecpar (streams0 eng fc))) n fc c tr = Some (fc_n, c_n, tr_n)"
    and fails: "failing_step eng fc_n c_n = Some f"
    and more: "int n < sint total_frames"
  shows "\<exists>w' e mid.
           decodeFrames eng w context_address 0 encoded_video offset total_frames = Some (None, w')
         \<and> e \<noteq> 0
         \<and> (f = Av_read_frame e \<or> f = Avcodec_send_packet e \<or> f = Avcodec_receive_frame e)
         \<and> calls w' = calls w @ mid @ [Avio_context_free, Avformat_close_input]
         \<and> f \<in> set mid
         \<and> pending w' =
             Some (''common/DecodingException'',
                   (if f = Av_read_frame e then ''AVPacket initialization failed, error code: ''
                    else ''Decoding failed, error code '') @ show_int (sint e))"
proof -
  let ?vw = "width (codecpar (streams0 eng fc))"
  let ?vh = "height (codecpar (streams0 eng fc))"
  have "n < nat (sint total_frames)" using more by linarith
  then obtain m where m: "nat (sint total_frames) = n + Suc m"
    by (auto simp: less_iff_Suc_add)
  have nn: "\<not> sint total_frames < 0" using more by simp
  from failing_step_aborts [OF fails, of ?vw ?vh tr_n] obtain e fc' c' mid where
    e: "e \<noteq> 0" and
    f: "f = Av_read_frame e \<or> f = Avcodec_send_packet e \<or> f = Avcodec_receive_frame e" and
    fm: "f \<in> set mid" and
    step: "decode_step eng ?vw ?vh fc_n c_n tr_n =
             Some (Inl ((if f = Av_read_frame e then ''AVPacket initialization failed, error code: ''
                         else ''Decoding failed, error code '') @ show_int (sint e)),
                   fc', c', tr_n @ mid @ [Avio_context_free, Avformat_close_input])"
    by blast
  let ?msg = "(if f = Av_read_frame e then ''AVPacket initialization failed, error code: ''
               else ''Decoding failed, error code '') @ show_int (sint e)"
  from decode_loop_after_completed [OF rounds, of "Suc m" "[]"] obtain acc' where
    "decode_loop eng ?vw ?vh (n + Suc m) fc c [] tr = decode_loop eng ?vw ?vh (Suc m) fc_n c_n acc' tr_n"
    by blast
  then have loop: "decode_loop eng ?vw ?vh (nat (sint total_frames)) fc c [] tr =
                     Some (Inl ?msg, c', tr_n @ mid @ [Avio_context_free, Avformat_close_input])"
    using step m by simp
  from completed_extends [OF rounds] obtain ext where ext: "tr_n = tr @ ext" by blast
  let ?probe = "[Avio_alloc_context, Avformat_alloc_context, Avformat_open_input 0,
                 Avformat_find_stream_info 0]"
  have tr: "tr = calls w @ ?probe" by (rule probe_ok_trace [OF probe])
  let ?w' = "w\<lparr>mem := (mem w)(context_address \<mapsto> c'),
               calls := tr_n @ mid @ [Avio_context_free, Avformat_close_input],
               pending := Some (''common/DecodingException'', ?msg)\<rparr>"
  have run: "decodeFrames eng w context_address 0 encoded_video offset total_frames = Some (None, ?w')"
    using probe ctx nn loop
    by (simp add: decodeFrames_def Let_def ThrowNew_def exception_class_def)
  have c: "calls ?w' = calls w @ (?probe @ ext @ mid) @ [Avio_context_free, Avformat_close_input]"
    using ext tr by simp
  have p: "pending ?w' = Some (''common/DecodingException'', ?msg)"
    by simp
  have fm': "f \<in> set (?probe @ ext @ mid)" using fm by simp
  show ?thesis
  proof (intro exI conjI)
    show "decodeFrames eng w context_address 0 encoded_video offset total_frames = Some (None, ?w')"
      by (rule run)
    show "e \<noteq> 0" by (rule e)
    show "f = Av_read_frame e \<or> f = Avcodec_send_packet e \<or> f = Avcodec_receive_frame e"
      by (rule f)
    show "calls ?w' = calls w @ (?probe @ ext @ mid) @ [Avio_context_free, Avformat_close_input]"
      by (rule c)
    show "f \<in> set (?probe @ ext @ mid)" by (rule fm')
    show "pending ?w' = Some (''common/DecodingException'', ?msg)" by (rule p)
  qed
qed

theorem decodeFrames_all_or_nothing_witness:
  "(\<exists>w'. decodeFrames toy_engine (toy_world 2) 16 0 [16, 32] 0 3 = Some (None, w')
       \<and> pending w' =
           Some (''common/DecodingException'',
                 ''AVPacket initialization failed, error code: -541478725''))
   \<and> (\<exists>w'. decodeFrames toy_engine (toy_world 2) 16 0 [16, 255] 0 2 = Some (None, w')
       \<and> pending w' =
           Some (''common/DecodingException'', ''Decoding failed, error code -1094995529''))
   \<and> (\<exists>w'. decodeFrames stalling_engine (toy_world 2) 16 0 [16] 0 1 = Some (None, w')
       \<and> pending w' = Some (''common/DecodingException'', ''Decoding failed, error code -11''))"
proof -
  let ?probe = "[Avio_alloc_context, Avformat_alloc_context, Avformat_open_input 0,
                 Avformat_find_stream_info 0]"
  have ctx: "mem (toy_world 2) 16 = Some (toy_context 2)"
    by (simp add: toy_world_sel)
  have s: "show_int (- 541478725) = ''-541478725''" "show_int (- 1094995529) = ''-1094995529''"
    "show_int (- 11) = ''-11''"
    by (simp_all add: show_int_def show_nat.simps)
  \<comment> \<open>the third read meets the end of the clip\<close>
  have probe1: "retrieve_video_format_context toy_engine [16, 32] (calls (toy_world 2)) =
                  (0, [16, 32], calls (toy_world 2) @ ?probe)"
    by (rule toy_probe)
  obtain c2 tr2 where
    rounds1: "completed toy_engine (width (codecpar (streams0 toy_engine [16, 32])))
                (height (codecpar (streams0 toy_engine [16, 32]))) 2 [16, 32] (toy_context 2)
                (calls (toy_world 2) @ ?probe) = Some ([], c2, tr2)"
    and fails1: "failing_step toy_engine [] c2 = Some (Av_read_frame (- 541478725))"
    by (simp add: completed_numeral toy_step toy_context_def toy_engine_sel toy_stream_def
        failing_step_def)
  have more1: "int 2 < sint (3 :: cint)" by simp
  from decodeFrames_all_or_nothing [OF probe1 ctx rounds1 fails1 more1, of 0]
  have r1: "\<exists>w'. decodeFrames toy_engine (toy_world 2) 16 0 [16, 32] 0 3 = Some (None, w')
       \<and> pending w' =
           Some (''common/DecodingException'',
                 ''AVPacket initialization failed, error code: -541478725'')"
    by (auto simp: s)
  \<comment> \<open>the decoder refuses the second packet\<close>
  have probe2: "retrieve_video_format_context toy_engine [16, 255] (calls (toy_world 2)) =
                  (0, [16, 255], calls (toy_world 2) @ ?probe)"
    by (rule toy_probe)
  obtain c1 tr1 where
    rounds2: "completed toy_engine (width (codecpar (streams0 toy_engine [16, 255])))
                (height (codecpar (streams0 toy_engine [16, 255]))) 1 [16, 255] (toy_context 2)
                (calls (toy_world 2) @ ?probe) = Some ([255], c1, tr1)"
    and fails2: "failing_step toy_engine [255] c1 = Some (Avcodec_send_packet (- 1094995529))"
    by (simp add: toy_step toy_context_def toy_engine_sel toy_stream_def failing_step_def)
  have more2: "int 1 < sint (2 :: cint)" by simp
  from decodeFrames_all_or_nothing [OF probe2 ctx rounds2 fails2 more2, of 0]
  have r2: "\<exists>w'. decodeFrames toy_engine (toy_world 2) 16 0 [16, 255] 0 2 = Some (None, w')
       \<and> pending w' =
           Some (''common/DecodingException'', ''Decoding failed, error code -1094995529'')"
    by (auto simp: s)
  \<comment> \<open>the decoder takes the first packet and has no frame yet\<close>
  have probe3: "retrieve_video_format_context stalling_engine [16] (calls (toy_world 2)) =
                  (0, [16], calls (toy_world 2) @ ?probe)"
    by (rule stalling_probe)
  have rounds3: "completed stalling_engine (width (codecpar (streams0 stalling_engine [16])))
                (height (codecpar (streams0 stalling_engine [16]))) 0 [16] (toy_context 2)
                (calls (toy_world 2) @ ?probe) = Some ([16], toy_context 2, calls (toy_world 2) @ ?probe)"
    by simp
  have fails3: "failing_step stalling_engine [16] (toy_context 2) = Some (Avcodec_receive_frame (- 11))"
    by (simp add: failing_step_def stalling_engine_def toy_engine_sel toy_context_def)
  have more3: "int 0 < sint (1 :: cint)" by simp
  from decodeFrames_all_or_nothing [OF probe3 ctx rounds3 fails3 more3, of 0]
  have r3: "\<exists>w'. decodeFrames stalling_engine (toy_world 2) 16 0 [16] 0 1 = Some (None, w')
       \<and> pending w' = Some (''common/DecodingException'', ''Decoding failed, error code -11'')"
    by (auto simp: s)
  show ?thesis using r1 r2 r3 by blast
qed

text \<open>
  C4, where the code departs from it. When the probing fails in \<open>initContext\<close>
  (\<open>avformat_open_input\<close> or \<open>avformat_find_stream_info\<close> returns \<open>e\<close> other than 0), the
  call throws \<open>Demuxing failed, error code: e\<close> and returns 0, and its trace is the
  allocation of the context followed by the probing: neither \<open>avio_context_free\<close> nor
  \<open>avformat_close_input\<close> is called.
\<close>

theorem initContext_probe_failure_releases_nothing:
  assumes probe: "retrieve_video_format_context eng encoded_video (calls w @ [Calloc]) = (e, fc, tr)"
    and code: "e \<noteq> 0"
  shows "\<exists>w'. initContext eng w addr encoded_video 0 = Some (0, w')
           \<and> pending w' =
               Some (''common/DecodingException'', ''Demuxing failed, error code: '' @ show_int (sint e))
           \<and> calls w' = tr
           \<and> ((\<exists>rc. calls w' = calls w @ [Calloc, Avio_alloc_context, Avformat_alloc_context,
                                           Avformat_open_input rc])
              \<or> calls w' = calls w @ [Calloc, Avio_alloc_context, Avformat_alloc_context,
                                      Avformat_open_input 0, Avformat_find_stream_info e])"
proof -
  let ?m0 = "if addr = 0 then mem w else (mem w)(addr \<mapsto> zeroed_context0)"
  let ?w' = "w\<lparr>mem := ?m0, calls := tr,
               pending := Some (''common/DecodingException'',
                                ''Demuxing failed, error code: '' @ show_int (sint e))\<rparr>"
  have run: "initContext eng w addr encoded_video 0 = Some (0, ?w')"
    using probe code
    by (simp add: initContext_def ThrowNew_def exception_class_def snprintf_simps)
  have "(\<exists>rc. calls ?w' = calls w @ [Calloc, Avio_alloc_context, Avformat_alloc_context,
                                           Avformat_open_input rc])
              \<or> calls ?w' = calls w @ [Calloc, Avio_alloc_context, Avformat_alloc_context,
                                      Avformat_open_input 0, Avformat_find_stream_info e]"
    using probe_failure_trace [OF probe code] by auto
  moreover have "pending ?w' =
      Some (''common/DecodingException'', ''Demuxing failed, error code: '' @ show_int (sint e))"
    by simp
  moreover have "calls ?w' = tr"
    by simp
  ultimately show ?thesis using run by blast
qed

theorem initContext_probe_failure_releases_nothing_witness:
  "\<exists>w'. initContext toy_engine empty_world 16 [] 0 = Some (0, w')
       \<and> pending w' =
           Some (''common/DecodingException'', ''Demuxing failed, error code: -1094995529'')
       \<and> calls w' = [Calloc, Avio_alloc_context, Avformat_alloc_context,
                      Avformat_open_input (- 1094995529)]"
proof -
  have probe: "retrieve_video_format_context toy_engine [] (calls empty_world @ [Calloc]) =
                 (- 1094995529, [], (calls empty_world @ [Calloc]) @
                    [Avio_alloc_context, Avformat_alloc_context, Avformat_open_input (- 1094995529)])"
    by (rule toy_probe_failure)
  have code: "(- 1094995529 :: cint) \<noteq> 0"
    by simp
  have s: "show_int (- 1094995529) = ''-1094995529''"
    by (simp add: show_int_def show_nat.simps)
  from initContext_probe_failure_releases_nothing [OF probe code, of 16]
  obtain w' where "initContext toy_engine empty_world 16 [] 0 = Some (0, w')"
    "pending w' =
       Some (''common/DecodingException'', ''Demuxing failed, error code: '' @ show_int (sint (- 1094995529 :: cint)))"
    "calls w' = (calls empty_world @ [Calloc]) @
                    [Avio_alloc_context, Avformat_alloc_context, Avformat_open_input (- 1094995529)]"
    by blast
  then show ?thesis by (simp add: s empty_world_def)
qed

text \<open>
  C5, as amended. For a context of type 0, \<open>frames\<close> throws the unknown-frame-rate
  exception when the hint is 0 and otherwise throws nothing and returns the low 32 bits of
  the hint as a \<open>jint\<close>: the hint itself when it is below \<open>2 ^ 31\<close>. The hint of a context
  that \<open>initContext\<close> built is the \<open>nb_frames\<close> of stream 0 of the clip it probed.
\<close>

theorem frames_returns_low_bits_of_hint:
  "(mem w context_address = Some c \<longrightarrow>
      (0 < frame_rate c \<longrightarrow> frames w context_address 0 = Some (ucast (frame_rate c), w))
    \<and> (0 < frame_rate c \<and> uint (frame_rate c) < 2 ^ 31 \<longrightarrow>
         (\<exists>r. frames w context_address 0 = Some (r, w) \<and> sint r = uint (frame_rate c)))
    \<and> (frame_rate c = 0 \<longrightarrow>
         frames w context_address 0 =
           Some (0, w\<lparr>pending := Some (''common/DecodingException'', ''Unknown frame rate'')\<rparr>)))
   \<and> (initContext eng w0 addr encoded_video 0 = Some (h, w1) \<and> h \<noteq> 0 \<longrightarrow>
        (\<exists>c1. mem w1 h = Some c1
           \<and> frame_rate c1 =
               nb_frames (streams0 eng
                 (fst (snd (retrieve_video_format_context eng encoded_video (calls w0 @ [Calloc])))))))"
proof -
  have small: "sint (ucast x :: cint) = uint x" if "uint x < 2 ^ 31" for x :: "64 word"
  proof -
    have "uint (ucast x :: cint) = uint x"
      using that by (simp add: unsigned_ucast_eq take_bit_int_eq_self)
    moreover have "sint (ucast x :: cint) = signed_take_bit 31 (uint (ucast x :: cint))"
      by (simp add: sint_uint)
    moreover have "signed_take_bit 31 (uint x) = uint x"
    proof (rule signed_take_bit_int_eq_self)
      show "- (2 ^ 31) \<le> uint x" by (rule order_trans [of _ 0]) simp_all
      show "uint x < 2 ^ 31" by (rule that)
    qed
    ultimately show ?thesis by simp
  qed
  have a: "frames w context_address 0 = Some (ucast (frame_rate c), w)"
    if "mem w context_address = Some c" "0 < frame_rate c"
    using that by (simp add: frames_def)
  have b: "frames w context_address 0 =
           Some (0, w\<lparr>pending := Some (''common/DecodingException'', ''Unknown frame rate'')\<rparr>)"
    if "mem w context_address = Some c" "frame_rate c = 0"
    using that by (simp add: frames_def ThrowNew_def exception_class_def)
  have i: "\<exists>c1. mem w1 h = Some c1
           \<and> frame_rate c1 =
               nb_frames (streams0 eng
                 (fst (snd (retrieve_video_format_context eng encoded_video (calls w0 @ [Calloc])))))"
    if "initContext eng w0 addr encoded_video 0 = Some (h, w1)" "h \<noteq> 0"
    using initContext_success [OF that] by auto
  show ?thesis using a b i small by blast
qed


theorem frames_returns_low_bits_of_hint_witness:
  "(\<exists>w1. initContext toy_engine empty_world 16 [16, 32] 0 = Some (16, w1)
       \<and> frames w1 16 0 = Some (2, w1))
   \<and> frames (toy_world 0) 16 0 =
       Some (0, (toy_world 0)\<lparr>pending := Some (''common/DecodingException'', ''Unknown frame rate'')\<rparr>)"
proof -
  obtain w1 where init: "initContext toy_engine empty_world 16 [16, 32] 0 = Some (16, w1)"
    by (simp add: toy_init)
  have nz: "(16 :: jlong) \<noteq> 0" by simp
  have probe: "fst (snd (retrieve_video_format_context toy_engine [16, 32] (calls empty_world @ [Calloc])))
                 = [16, 32]"
    by (simp add: toy_probe)
  have "\<exists>c1. mem w1 16 = Some c1
           \<and> frame_rate c1 =
               nb_frames (streams0 toy_engine
                 (fst (snd (retrieve_video_format_context toy_engine [16, 32]
                              (calls empty_world @ [Calloc])))))"
    using frames_returns_low_bits_of_hint [of _ _ _ toy_engine empty_world 16 "[16, 32]" 16 w1]
      init nz
    by blast
  then obtain c1 where c1: "mem w1 16 = Some c1" "frame_rate c1 = 2"
    by (auto simp: probe toy_engine_sel toy_stream_def)
  have "frames w1 16 0 = Some (2, w1)"
    using frames_returns_low_bits_of_hint [of w1 16 c1 toy_engine empty_world 16 "[16, 32]" 16 w1] c1
    by simp
  moreover have "frames (toy_world 0) 16 0 =
       Some (0, (toy_world 0)\<lparr>pending := Some (''common/DecodingException'', ''Unknown frame rate'')\<rparr>)"
    using frames_returns_low_bits_of_hint
      [of "toy_world 0" 16 "toy_context 0" toy_engine empty_world 16 "[16, 32]" 16 w1]
    by (simp add: toy_world_sel toy_context_def)
  ultimately show ?thesis using init by blast
qed

text \<open>
  C5 as first stated fails for a hint that does not fit a \<open>jint\<close>. With the hint
  \<open>2 ^ 32\<close>, strictly positive, \<open>frames\<close> returns 0 and throws nothing: it does not
  return the hint.
\<close>

theorem frames_large_hint_counterexample:
  "mem (toy_world 4294967296) 16 = Some (toy_context 4294967296)
   \<and> frame_rate (toy_context 4294967296) = 4294967296
   \<and> frames (toy_world 4294967296) 16 0 = Some (0, toy_world 4294967296)"
  by (simp add: frames_def toy_world_sel toy_context_def)

text \<open>
  C6. With a context type other than 0, \<open>initContext\<close>, \<open>decodeFrames\<close> and \<open>frames\<close>
  throw \<open>common/DecodingException\<close> with the message \<open>Context <n> is not supported\<close> and
  return \<open>NULL\<close> or \<open>0\<close>; the world is otherwise the one before the call (the same live
  contexts, not one more call into the engine or the allocator). \<open>freeContext\<close> leaves the
  world as it is.
\<close>

theorem unsupported_context_type:
  assumes "context_type \<noteq> 0"
  shows "initContext eng w addr encoded_video context_type =
           Some (0, w\<lparr>pending := Some (''common/DecodingException'',
                          ''Context '' @ show_int (sint context_type) @ '' is not supported'')\<rparr>)
       \<and> decodeFrames eng w context_address context_type encoded_video offset total_frames =
           Some (None, w\<lparr>pending := Some (''common/DecodingException'',
                          ''Context '' @ show_int (sint context_type) @ '' is not supported'')\<rparr>)
       \<and> frames w context_address context_type =
           Some (0, w\<lparr>pending := Some (''common/DecodingException'',
                          ''Context '' @ show_int (sint context_type) @ '' is not supported'')\<rparr>)
       \<and> freeContext w context_address context_type = Some w"
proof -
  have m: "snprintf 256 (''Context '' @ show_int (sint context_type) @ '' is not supported'') =
           ''Context '' @ show_int (sint context_type) @ '' is not supported''"
    "snprintf 216 (''Context '' @ show_int (sint context_type) @ '' is not supported'') =
           ''Context '' @ show_int (sint context_type) @ '' is not supported''"
    by (intro snprintf_code; simp)+
  show ?thesis
    using assms
    unfolding initContext_def decodeFrames_def frames_def freeContext_def m
    by (simp add: ThrowNew_def exception_class_def)
qed

theorem unsupported_context_type_witness:
  "initContext toy_engine empty_world 16 [16, 32] 1 =
     Some (0, empty_world\<lparr>pending := Some (''common/DecodingException'', ''Context 1 is not supported'')\<rparr>)
   \<and> decodeFrames toy_engine (toy_world 2) 16 (- 3) [16, 32] 0 2 =
     Some (None, (toy_world 2)\<lparr>pending := Some (''common/DecodingException'', ''Context -3 is not supported'')\<rparr>)
   \<and> frames (toy_world 2) 16 7 =
     Some (0, (toy_world 2)\<lparr>pending := Some (''common/DecodingException'', ''Context 7 is not supported'')\<rparr>)
   \<and> freeContext (toy_world 2) 16 1 = Some (toy_world 2)"
proof -
  have s: "show_int 1 = ''1''" "show_int (- 3) = ''-3''" "show_int 7 = ''7''"
    by (simp_all add: show_int_def show_nat.simps)
  show ?thesis
    using unsupported_context_type [of 1 toy_engine empty_world 16 "[16, 32]" 16 0 2]
      unsupported_context_type [of "- 3" toy_engine "toy_world 2" 16 "[16, 32]" 16 0 2]
      unsupported_context_type [of 7 toy_engine "toy_world 2" 16 "[16, 32]" 16 0 2]
      unsupported_context_type [of 1 toy_engine "toy_world 2" 16 "[16, 32]" 16 0 2]
    by (simp add: s)
qed

text \<open>
  C7, where the code departs from it. When the first packet is read and the decoder refuses
  it with the code \<open>e\<close>, \<open>decodeFrames\<close> throws the message
  \<open>Decoding failed, error code e\<close>, which has no colon before the code.
\<close>

theorem decodeFrames_send_failure_message:
  assumes probe: "retrieve_video_format_context eng encoded_video (calls w) = (0, fc, tr)"
    and ctx: "mem w context_address = Some c" "packet c = Some pk" "codec_context c = Some cc"
    and read: "av_read_frame eng fc pk = (0, fc1, pk1)"
    and send: "avcodec_send_packet eng cc pk1 = (e, cc2)"
    and code: "e \<noteq> 0"
    and total: "0 < sint total_frames"
  shows "\<exists>w'. decodeFrames eng w context_address 0 encoded_video offset total_frames = Some (None, w')
           \<and> pending w' =
               Some (''common/DecodingException'', ''Decoding failed, error code '' @ show_int (sint e))"
proof -
  obtain n where n: "nat (sint total_frames) = Suc n"
    using total by (cases "nat (sint total_frames)") auto
  let ?vw = "width (codecpar (streams0 eng fc))"
  let ?vh = "height (codecpar (streams0 eng fc))"
  have step: "decode_step eng ?vw ?vh fc c tr =
          Some (Inl (''Decoding failed, error code '' @ show_int (sint e)), fc1,
                c\<lparr>packet := Some pk1, codec_context := Some cc2\<rparr>,
                tr @ [Av_read_frame 0, Avcodec_send_packet e, Avio_context_free, Avformat_close_input])"
    using ctx read send code by (simp add: decode_step_def snprintf_simps)
  show ?thesis
    using probe ctx(1) n step by (simp add: decodeFrames_def Let_def ThrowNew_def exception_class_def)
qed

theorem decodeFrames_send_failure_message_witness:
  "\<exists>w'. decodeFrames toy_engine (toy_world 2) 16 0 [255, 16] 0 2 = Some (None, w')
       \<and> pending w' =
           Some (''common/DecodingException'', ''Decoding failed, error code -1094995529'')"
proof -
  have probe: "retrieve_video_format_context toy_engine [255, 16] (calls (toy_world 2)) =
                 (0, [255, 16], calls (toy_world 2) @
                    [Avio_alloc_context, Avformat_alloc_context, Avformat_open_input 0,
                     Avformat_find_stream_info 0])"
    by (rule toy_probe)
  have ctx: "mem (toy_world 2) 16 = Some (toy_context 2)" "packet (toy_context 2) = Some 0"
    "codec_context (toy_context 2) = Some []"
    by (simp_all add: toy_world_sel toy_context_def)
  have read: "av_read_frame toy_engine [255, 16] 0 = (0, [16], 255)"
    by (simp add: toy_engine_sel)
  have send: "avcodec_send_packet toy_engine [] 255 = (- 1094995529, [])"
    by (simp add: toy_engine_sel)
  have code: "(- 1094995529 :: cint) \<noteq> 0"
    by simp
  have total: "0 < sint (2 :: cint)"
    by simp
  have s: "show_int (- 1094995529) = ''-1094995529''"
    by (simp add: show_int_def show_nat.simps)
  from decodeFrames_send_failure_message [OF probe ctx read send code total, of 0]
  show ?thesis by (simp add: s)
qed

text \<open>
  C8, as amended. A call of \<open>decodeFrames\<close> on a live context leaves every other context
  alone and, in this one, the frame rate, the scaler context, the size of the scratch array
  and which fields are \<open>NULL\<close>; the contents of the frame, of the packet and of the scratch
  array and the state of the decoding context may change.
\<close>

theorem decodeFrames_frame_condition:
  assumes run: "decodeFrames eng w context_address context_type encoded_video offset total_frames
                  = Some (res, w')"
    and ctx: "mem w context_address = Some c"
  shows "\<exists>c'. mem w' context_address = Some c'
           \<and> frame_rate c' = frame_rate c
           \<and> sws_context c' = sws_context c
           \<and> map_option length (buffer c') = map_option length (buffer c)
           \<and> (frame c' = None) = (frame c = None)
           \<and> (packet c' = None) = (packet c = None)
           \<and> (codec_context c' = None) = (codec_context c = None)
           \<and> (\<forall>other. other \<noteq> context_address \<longrightarrow> mem w' other = mem w other)"
proof -
  have "\<exists>c'. mem w' context_address = Some c' \<and> same_shape c c'
           \<and> (\<forall>other. other \<noteq> context_address \<longrightarrow> mem w' other = mem w other)"
  proof (cases "context_type = 0")
    case False
    then have "mem w' = mem w" using run by (auto simp: decodeFrames_def ThrowNew_def)
    then show ?thesis using ctx by (simp add: same_shape_refl)
  next
    case True
    obtain e0 fc tr0 where probe:
      "retrieve_video_format_context eng encoded_video (calls w) = (e0, fc, tr0)"
      by (cases "retrieve_video_format_context eng encoded_video (calls w)") auto
    show ?thesis
    proof (cases "e0 = 0")
      case False
      then have "mem w' = mem w"
        using run True probe by (auto simp: decodeFrames_def ThrowNew_def split: if_splits)
      then show ?thesis using ctx by (simp add: same_shape_refl)
    next
      case e0: True
      let ?vw = "width (codecpar (streams0 eng fc))"
      let ?vh = "height (codecpar (streams0 eng fc))"
      have nn: "\<not> sint total_frames < 0"
        using run True probe e0 by (auto simp: decodeFrames_def Let_def split: if_splits)
      from run True probe e0 nn ctx obtain r c' tr' where
        loop: "decode_loop eng ?vw ?vh (nat (sint total_frames)) fc c [] tr0 = Some (r, c', tr')"
        by (auto simp: decodeFrames_def Let_def split: option.splits)
      have "mem w' = (mem w)(context_address \<mapsto> c')"
        using run True probe e0 nn ctx loop
        by (auto simp: decodeFrames_def Let_def ThrowNew_def split: sum.splits)
      then show ?thesis using decode_loop_shape [OF loop] by simp
    qed
  qed
  then show ?thesis by (auto simp: same_shape_def)
qed

theorem decodeFrames_frame_condition_witness:
  "\<exists>res w' c'. decodeFrames toy_engine (toy_world 2) 16 0 [16, 32] 0 2 = Some (res, w')
       \<and> mem w' 16 = Some c' \<and> frame_rate c' = 2 \<and> sws_context c' = Some ()
       \<and> map_option length (buffer c') = Some 3"
proof -
  obtain res w' where
    run: "decodeFrames toy_engine (toy_world 2) 16 0 [16, 32] 0 2 = Some (res, w')"
    by (simp add: toy_run)
  have ctx: "mem (toy_world 2) 16 = Some (toy_context 2)"
    by (simp add: toy_world_sel)
  from decodeFrames_frame_condition [OF run ctx] obtain c' where
    "mem w' 16 = Some c'" "frame_rate c' = frame_rate (toy_context 2)"
    "sws_context c' = sws_context (toy_context 2)"
    "map_option length (buffer c') = map_option length (buffer (toy_context 2))"
    by blast
  then show ?thesis using run by (auto simp: toy_context_def)
qed

text \<open>
  C8 as first stated has the decoding context unchanged. It does change:
  \<open>avcodec_send_packet\<close> and \<open>avcodec_receive_frame\<close> get it as their first argument, and
  the frame can depend on the packet only through it. On a decoder that keeps what it was
  sent, two decoded packets leave it changed.
\<close>

theorem decodeFrames_changes_decoder_counterexample:
  "mem (toy_world 2) 16 = Some (toy_context 2)
   \<and> codec_context (toy_context 2) = Some []
   \<and> (\<exists>res w' c'. decodeFrames toy_engine (toy_world 2) 16 0 [16, 32] 0 2 = Some (res, w')
         \<and> mem w' 16 = Some c' \<and> codec_context c' = Some [16, 32])"
  by (simp add: toy_run)

text \<open>
  C9. The result of \<open>decodeFrames\<close> (the returned array or the exception, and the world
  after the call) is the same for any two values of \<open>offset\<close>.
\<close>

theorem decodeFrames_ignores_offset:
  "decodeFrames eng w context_address context_type encoded_video offset1 total_frames =
   decodeFrames eng w context_address context_type encoded_video offset2 total_frames"
  by (simp add: decodeFrames_def)

theorem decodeFrames_ignores_offset_witness:
  "decodeFrames toy_engine (toy_world 2) 16 0 [16, 32] 0 2 =
   decodeFrames toy_engine (toy_world 2) 16 0 [16, 32] 1 2"
  by (rule decodeFrames_ignores_offset)

text \<open>
  C10. The context stores the hint as a \<open>uint64_t\<close> and \<open>frames\<close> returns a \<open>jint\<close>: for
  a strictly positive hint the call throws nothing and returns the hint modulo \<open>2 ^ 32\<close>,
  which is not the stored hint once that exceeds the 32-bit range (read unsigned, from
  \<open>2 ^ 32\<close> on; read as the signed \<open>jint\<close> it is, from \<open>2 ^ 31\<close> on).
\<close>

theorem frames_returns_hint_mod_2_32:
  assumes "mem w context_address = Some c" and "0 < frame_rate c"
  shows "\<exists>r. frames w context_address 0 = Some (r, w)
           \<and> uint r = uint (frame_rate c) mod 2 ^ 32
           \<and> (2 ^ 32 \<le> uint (frame_rate c) \<longrightarrow> uint r \<noteq> uint (frame_rate c))
           \<and> (2 ^ 31 \<le> uint (frame_rate c) \<longrightarrow> sint r \<noteq> uint (frame_rate c))"
proof -
  let ?r = "ucast (frame_rate c) :: cint"
  have f: "frames w context_address 0 = Some (?r, w)"
    using assms by (simp add: frames_def)
  have u: "uint ?r = uint (frame_rate c) mod 2 ^ 32"
    by (simp add: take_bit_eq_mod unsigned_ucast_eq)
  have lt: "uint ?r < 2 ^ 32" using uint_lt2p [of ?r] by simp
  have slt: "sint ?r < 2 ^ 31" using sint_lt [of ?r] by simp
  show ?thesis using f u lt slt by auto
qed

theorem frames_returns_hint_mod_2_32_witness:
  "\<exists>r. frames (toy_world 4294967301) 16 0 = Some (r, toy_world 4294967301) \<and> uint r = 5"
proof -
  have m: "mem (toy_world 4294967301) 16 = Some (toy_context 4294967301)"
    by (simp add: toy_world_def)
  have p: "0 < frame_rate (toy_context 4294967301)"
    by (simp add: toy_context_def)
  show ?thesis using frames_returns_hint_mod_2_32 [OF m p] by (auto simp: toy_context_def)
qed

end
